theory Spec2Isabelle
  imports Main "HOL-Library.Word"
begin

section \<open>The Init process of \<^verbatim>\<open>kernel/init/init_main.c\<close>\<close>

subsection \<open>Data\<close>

text \<open>
  A C \<^verbatim>\<open>char\<close> is an Isabelle \<^typ>\<open>char\<close> (8 bits), a buffer is a \<^typ>\<open>string\<close>.
  The terminator of a C string is the byte 0, the separator written by the
  reconstruction loop is the space.
\<close>

definition NUL :: char where
  "NUL = CHR 0x00"

definition SPACE :: char where
  "SPACE = CHR '' ''"

text \<open>
  The values a \<^verbatim>\<open>char *\<close> slot of \<^verbatim>\<open>initArgs\<close> can hold. \<^verbatim>\<open>initArgs\<close> is an
  automatic array that is never initialised as a whole, so a slot nobody has stored
  into is \<open>Indeterminate\<close>. \<open>InArgBuffer k\<close> is \<^verbatim>\<open>argBuffer + k\<close>, \<open>InBootCommand k\<close>
  is \<^verbatim>\<open>bootCommand + k\<close>, \<open>Literal s\<close> points to the constant string \<open>s\<close> (the
  literal \<^verbatim>\<open>"-b"\<close>, the macro \<^verbatim>\<open>INIT\<close>, the target of \<^verbatim>\<open>main_AltInit\<close>) and \<open>NIL\<close> is
  \<^verbatim>\<open>(char *) NIL\<close>.
\<close>

datatype pointer =
    NIL
  | Indeterminate
  | Literal string
  | InArgBuffer nat
  | InBootCommand nat

text \<open>
  What the C abstract machine leaves undefined is a fault of the model: an index
  outside \<^verbatim>\<open>initArgs[10]\<close>, \<^verbatim>\<open>argBuffer[100]\<close> or \<^verbatim>\<open>bootCommand[103]\<close>, a
  \<^verbatim>\<open>strlen\<close> that runs off the end of its buffer, and the use of a pointer that does
  not point into \<^verbatim>\<open>argBuffer\<close> where the code computes with its address.
\<close>

datatype fault =
    InitArgsOutOfBounds int
  | ArgBufferOutOfBounds int
  | BootCommandOutOfBounds int
  | UnterminatedString nat
  | NotInArgBuffer pointer

text \<open>The three automatic arrays of \<^verbatim>\<open>Init\<close>.\<close>

record init_frame =
  initArgs :: "pointer list"
  argBuffer :: string
  bootCommand :: string

text \<open>
  What the call \<^verbatim>\<open>Mach_GetBootArgs(8, 100, &(initArgs[2]), argBuffer)\<close> hands back:
  its return value, the offsets into the buffer of the pointers it has stored into
  \<^verbatim>\<open>argv[0]\<close>, \<^verbatim>\<open>argv[1]\<close>, ... and the 100 bytes of the buffer after the call.
  \<^verbatim>\<open>Mach_GetBootArgs\<close> itself belongs to the machine-dependent module and is not part
  of this file, so \<^verbatim>\<open>Init\<close> is modelled for every such result.
\<close>

record boot_args =
  ba_argc :: int
  ba_argv :: "nat list"
  ba_buffer :: string

subsection \<open>Array accesses with their bounds\<close>

definition load_initArgs :: "pointer list \<Rightarrow> int \<Rightarrow> fault + pointer" where
  "load_initArgs a i =
     (if 0 \<le> i \<and> i < 10 then Inr (a ! nat i) else Inl (InitArgsOutOfBounds i))"

definition store_initArgs :: "pointer list \<Rightarrow> int \<Rightarrow> pointer \<Rightarrow> fault + pointer list" where
  "store_initArgs a i p =
     (if 0 \<le> i \<and> i < 10 then Inr (a[nat i := p]) else Inl (InitArgsOutOfBounds i))"

text \<open>
  \<^verbatim>\<open>strlen\<close> on \<^verbatim>\<open>argBuffer + k\<close>: the number of bytes before the first NUL at or
  after offset \<open>k\<close>; with no NUL left in the buffer the scan leaves the array.
\<close>

definition strlen_at :: "string \<Rightarrow> nat \<Rightarrow> fault + nat" where
  "strlen_at buf k =
     (if NUL \<in> set (drop k buf)
      then Inr (length (takeWhile (\<lambda>c. c \<noteq> NUL) (drop k buf)))
      else Inl (UnterminatedString k))"

subsection \<open>Lines 199 to 204: the frame after the parse, and \<^verbatim>\<open>argLength\<close>\<close>

text \<open>
  \<^verbatim>\<open>bzero(bootCommand, sizeof(bootCommand))\<close> clears the 103 bytes; the parse stores
  its pointers from slot 2 on (at most 8 of them, the first argument of the call) and
  fills \<^verbatim>\<open>argBuffer\<close>. Slots 0 and 1 and the slots after the last fragment pointer
  have not been written yet.
\<close>

definition frame_after_parse :: "boot_args \<Rightarrow> init_frame" where
  "frame_after_parse ba =
     \<lparr> initArgs = [Indeterminate, Indeterminate]
                   @ take 8 (map InArgBuffer (ba_argv ba) @ replicate 8 Indeterminate),
       argBuffer = ba_buffer ba,
       bootCommand = replicate 103 NUL \<rparr>"

text \<open>
  \<^verbatim>\<open>(int) p\<close> for a pointer into \<^verbatim>\<open>argBuffer\<close>, where \<open>base\<close> is \<^verbatim>\<open>(int) argBuffer\<close>: a
  32-bit \<^verbatim>\<open>int\<close>, so the sum wraps. Where pointers are wider than \<^verbatim>\<open>int\<close> the cast keeps
  their low 32 bits, which is the same sum. Any other pointer has no address that the
  model knows, and \<^verbatim>\<open>strlen\<close> of it is not a scan of \<^verbatim>\<open>argBuffer\<close>.
\<close>

definition int_of_pointer :: "32 word \<Rightarrow> pointer \<Rightarrow> fault + 32 word" where
  "int_of_pointer base p =
     (case p of InArgBuffer k \<Rightarrow> Inr (base + word_of_nat k) | _ \<Rightarrow> Inl (NotInArgBuffer p))"

definition strlen_pointer :: "string \<Rightarrow> pointer \<Rightarrow> fault + nat" where
  "strlen_pointer buf p =
     (case p of InArgBuffer k \<Rightarrow> strlen_at buf k | _ \<Rightarrow> Inl (NotInArgBuffer p))"

text \<open>
  \<^verbatim>\<open>
  if (argc > 0)
      argLength = (((int) initArgs[argc+1]) + strlen(initArgs[argc+1]) + 1 - ((int) argBuffer));
  else
      argLength = 0;
  \<close>
\<close>

definition compute_argLength :: "32 word \<Rightarrow> init_frame \<Rightarrow> int \<Rightarrow> fault + int" where
  "compute_argLength base fr argc =
     (if argc > 0 then
        (case load_initArgs (initArgs fr) (argc + 1) of
           Inl e \<Rightarrow> Inl e
         | Inr p \<Rightarrow>
            (case int_of_pointer base p of
               Inl e \<Rightarrow> Inl e
             | Inr a \<Rightarrow>
                (case strlen_pointer (argBuffer fr) p of
                   Inl e \<Rightarrow> Inl e
                 | Inr n \<Rightarrow> Inr (sint (a + word_of_nat n + 1 - base)))))
      else Inr 0)"

subsection \<open>Lines 208 to 215: the reconstruction of the command line\<close>

text \<open>
  \<^verbatim>\<open>
  ptr = bootCommand;
  for (i = 0; i < argLength; i++) {
      if (argBuffer[i] == '\0')
          *ptr++ = ' ';
      else
          *ptr++ = argBuffer[i];
  }
  \<close>
  \<open>i\<close> is the loop counter and \<open>p\<close> the offset of \<^verbatim>\<open>ptr\<close> in \<^verbatim>\<open>bootCommand\<close>.
\<close>

function copy_loop :: "int \<Rightarrow> nat \<Rightarrow> int \<Rightarrow> string \<Rightarrow> string \<Rightarrow> fault + string" where
  "copy_loop i p argLength buf cmd =
     (if i < argLength then
        (if \<not> (0 \<le> i \<and> i < 100) \<or> \<not> nat i < length buf then Inl (ArgBufferOutOfBounds i)
         else if \<not> p < 103 \<or> \<not> p < length cmd then Inl (BootCommandOutOfBounds (int p))
         else if buf ! nat i = NUL
              then copy_loop (i + 1) (p + 1) argLength buf (cmd[p := SPACE])
              else copy_loop (i + 1) (p + 1) argLength buf (cmd[p := buf ! nat i]))
      else Inr cmd)"
  by pat_completeness auto
termination
  by (relation "measure (\<lambda>(i, p, argLength, buf, cmd). nat (argLength - i))") auto

text \<open>The equation of the loop is unfolded by hand, one iteration at a time.\<close>

declare copy_loop.simps [simp del]

text \<open>\<^verbatim>\<open>bootCommand[argLength] = '\0';\<close>\<close>

definition store_bootCommand :: "string \<Rightarrow> int \<Rightarrow> char \<Rightarrow> fault + string" where
  "store_bootCommand cmd i c =
     (if 0 \<le> i \<and> i < 103 \<and> nat i < length cmd then Inr (cmd[nat i := c])
      else Inl (BootCommandOutOfBounds i))"

definition reconstruct :: "string \<Rightarrow> string \<Rightarrow> int \<Rightarrow> fault + string" where
  "reconstruct buf cmd argLength =
     (case copy_loop 0 0 argLength buf cmd of
        Inl e \<Rightarrow> Inl e
      | Inr cmd' \<Rightarrow> store_bootCommand cmd' argLength NUL)"

subsection \<open>Lines 206 to 219: the argument vector\<close>

text \<open>
  \<^verbatim>\<open>
  if (argLength > 0) {
      initArgs[1] = "-b";
      ... the loop ...
      bootCommand[argLength] = '\0';
      initArgs[2] = bootCommand;
      initArgs[argc + 2] = (char *) NIL;
  } else
      initArgs[1] = (char *) NIL;
  \<close>
\<close>

definition build_args :: "init_frame \<Rightarrow> int \<Rightarrow> int \<Rightarrow> fault + init_frame" where
  "build_args fr argc argLength =
     (if argLength > 0 then
        (case store_initArgs (initArgs fr) 1 (Literal ''-b'') of
           Inl e \<Rightarrow> Inl e
         | Inr a1 \<Rightarrow>
            (case reconstruct (argBuffer fr) (bootCommand fr) argLength of
               Inl e \<Rightarrow> Inl e
             | Inr cmd \<Rightarrow>
                (case store_initArgs a1 2 (InBootCommand 0) of
                   Inl e \<Rightarrow> Inl e
                 | Inr a2 \<Rightarrow>
                    (case store_initArgs a2 (argc + 2) NIL of
                       Inl e \<Rightarrow> Inl e
                     | Inr a3 \<Rightarrow> Inr (fr\<lparr>initArgs := a3, bootCommand := cmd\<rparr>)))))
      else
        (case store_initArgs (initArgs fr) 1 NIL of
           Inl e \<Rightarrow> Inl e
         | Inr a1 \<Rightarrow> Inr (fr\<lparr>initArgs := a1\<rparr>)))"

text \<open>Lines 199 to 219 together.\<close>

definition Init_args :: "32 word \<Rightarrow> boot_args \<Rightarrow> fault + init_frame" where
  "Init_args base ba =
     (let fr = frame_after_parse ba; argc = ba_argc ba in
      case compute_argLength base fr argc of
        Inl e \<Rightarrow> Inl e
      | Inr argLength \<Rightarrow> build_args fr argc argLength)"

subsection \<open>Reading the result as strings\<close>

text \<open>The C string a pointer designates, when it designates one.\<close>

definition cstring :: "string \<Rightarrow> nat \<Rightarrow> string option" where
  "cstring buf k =
     (if NUL \<in> set (drop k buf) then Some (takeWhile (\<lambda>c. c \<noteq> NUL) (drop k buf)) else None)"

definition deref :: "init_frame \<Rightarrow> pointer \<Rightarrow> string option" where
  "deref fr p =
     (case p of
        Literal s \<Rightarrow> Some s
      | InArgBuffer k \<Rightarrow> cstring (argBuffer fr) k
      | InBootCommand k \<Rightarrow> cstring (bootCommand fr) k
      | _ \<Rightarrow> None)"

text \<open>
  The argument vector as the exec'ed program receives it: the slots before the first
  \<open>NIL\<close>, each read as a string. \<open>None\<close> when no slot of the array holds \<open>NIL\<close>.
\<close>

definition arg_vector :: "init_frame \<Rightarrow> string option list option" where
  "arg_vector fr =
     (if NIL \<in> set (initArgs fr)
      then Some (map (deref fr) (takeWhile (\<lambda>p. p \<noteq> NIL) (initArgs fr)))
      else None)"

text \<open>
  The ten slots of \<^verbatim>\<open>initArgs\<close> after line 219; the reconstructed command line that
  \<^verbatim>\<open>Init\<close> leaves in \<^verbatim>\<open>bootCommand\<close>, read as a C string; and the vector that
  \<^verbatim>\<open>Proc_KernExec(initArgs[0], initArgs)\<close> receives once \<^verbatim>\<open>initArgs[0]\<close> has been set
  to a path (lines 222 and 232).
\<close>

definition Init_slots :: "32 word \<Rightarrow> boot_args \<Rightarrow> fault + pointer list" where
  "Init_slots base ba =
     (case Init_args base ba of
        Inl e \<Rightarrow> Inl e
      | Inr fr \<Rightarrow> Inr (initArgs fr))"

definition command_line :: "32 word \<Rightarrow> boot_args \<Rightarrow> fault + string option" where
  "command_line base ba =
     (case Init_args base ba of
        Inl e \<Rightarrow> Inl e
      | Inr fr \<Rightarrow> Inr (cstring (bootCommand fr) 0))"

definition exec_vector :: "32 word \<Rightarrow> boot_args \<Rightarrow> string \<Rightarrow> fault + string option list option" where
  "exec_vector base ba path =
     (case Init_args base ba of
        Inl e \<Rightarrow> Inl e
      | Inr fr \<Rightarrow> Inr (arg_vector (fr\<lparr>initArgs := (initArgs fr)[0 := Literal path]\<rparr>)))"

subsection \<open>The boot-argument buffer as the boundary contract lays it out\<close>

text \<open>
  Modelled from the spec: \<^verbatim>\<open>Mach_GetBootArgs\<close> is defined in the machine-dependent
  module, not in this file. The specification gives its result as a sequence of
  NUL-terminated fragments stored back-to-back from the start of the 100-byte buffer
  (at most 8 fragments, at most 100 bytes in total), with one pointer per fragment. The
  bytes after the last fragment are whatever the automatic array held: \<open>rest\<close>.
\<close>

definition layout :: "string list \<Rightarrow> string" where
  "layout frags = concat (map (\<lambda>f. f @ [NUL]) frags)"

fun fragment_offsets :: "nat \<Rightarrow> string list \<Rightarrow> nat list" where
  "fragment_offsets k [] = []"
| "fragment_offsets k (f # fs) = k # fragment_offsets (k + length f + 1) fs"

definition Mach_GetBootArgs :: "string list \<Rightarrow> string \<Rightarrow> boot_args" where
  "Mach_GetBootArgs frags rest =
     \<lparr> ba_argc = int (length frags),
       ba_argv = fragment_offsets 0 frags,
       ba_buffer = layout frags @ rest \<rparr>"

text \<open>
  Modelled from the spec: the boundary contract of the buffer that \<^verbatim>\<open>Mach_GetBootArgs\<close>
  fills, which is not in this file: at most 8 fragments, none of which contains a NUL,
  and 100 bytes in all, of which the fragments with their terminators take at most 100.
\<close>

definition boundary_contract :: "string list \<Rightarrow> string \<Rightarrow> bool" where
  "boundary_contract frags rest \<longleftrightarrow>
     length frags \<le> 8 \<and> list_all (\<lambda>f. NUL \<notin> set f) frags
     \<and> length (layout frags) + length rest = 100"

text \<open>
  The specification's description of the reconstruction, to compare the loop with: the
  first \<open>n\<close> bytes of the fragment buffer, every NUL replaced by a space, then a NUL.
\<close>

definition nul_to_space :: "char \<Rightarrow> char" where
  "nul_to_space c = (if c = NUL then SPACE else c)"

definition spec_command_line :: "string \<Rightarrow> nat \<Rightarrow> string" where
  "spec_command_line buf n = map nul_to_space (take n buf) @ [NUL]"

section \<open>Kernel routines called by \<^verbatim>\<open>main\<close> and \<^verbatim>\<open>Init\<close>\<close>

text \<open>
  \<^verbatim>\<open>ReturnStatus\<close> is an integer type of the kernel headers; the code prints it with
  \<^verbatim>\<open>%x\<close> and compares it with \<^verbatim>\<open>SUCCESS\<close>.
\<close>

type_synonym ReturnStatus = int

text \<open>
  Modelled from the spec: the header that defines the macro \<^verbatim>\<open>SUCCESS\<close> is not in this
  file. The specification only distinguishes success from every other status; no
  property below depends on the value chosen here.
\<close>

definition SUCCESS :: ReturnStatus where
  "SUCCESS = 0"

text \<open>
  An argument of a \<^verbatim>\<open>printf\<close>: a string for \<^verbatim>\<open>%s\<close>, a status for \<^verbatim>\<open>%x\<close>, or the name of
  an expression whose value this file does not determine.
\<close>

datatype printf_arg = S string | X ReturnStatus | Expr string

text \<open>The kernel functions whose address the code passes to \<^verbatim>\<open>Proc_CallFunc\<close> or to
  \<^verbatim>\<open>Proc_NewProc\<close>.\<close>

datatype kfunc =
    Vm_Clock | Vm_OpenSwapDirectory | Fsutil_SyncProc | Rpc_Daemon | Recov_Proc | Init

datatype fs_flag = FS_EXECUTE | FS_FOLLOW

text \<open>
  One constructor for every routine the two functions call, in the spelling of the
  source. A constructor carries the arguments that tell one call from another: the
  format and the values of a print, the function handed to \<^verbatim>\<open>Proc_CallFunc\<close>, the entry
  point and the name given to \<^verbatim>\<open>Proc_NewProc\<close>, the count of \<^verbatim>\<open>Proc_ServerProcCreate\<close>,
  the path and the vector of \<^verbatim>\<open>Proc_KernExec\<close> (the vector as the callee reads it), the
  path and the flags of \<^verbatim>\<open>Fs_Open\<close>, the status of \<^verbatim>\<open>Proc_Exit\<close>.
\<close>

datatype kcall =
    Main_InitVars | Mach_Init | Sync_Init | Dbg_Init
  | Mach_MonPrintf string "printf_arg list"
  | Sys_Init | Vm_BootInit | Dev_Init | Dump_Init | Proc_Init | Sync_LockStatInit
  | Timer_Init | Sig_Init | Sched_Init
  | SpriteVersion
  | printf string "printf_arg list"
  | Fs_Bin | Net_Bin | Vm_Init | Proc_InitMainProc | Net_Init | Net_RouteInit
  | Proc_ServerInit | Recov_Init | Rpc_Init | Dev_Config | Prof_Init
  | Mach_MonStartNmi | ENABLE_INTR | Fsrecov_InitState | Fsrecov_DirOpInit
  | Sched_TimeTicks | Prof_Start | Rpc_Start | Fs_Init | Fs_ProcInit
  | Proc_CallFunc kfunc
  | Rpc_CreateServer
  | Proc_NewProc kfunc string
  | Proc_ServerProcCreate int
  | Proc_MigInit | Main_HookRoutine
  | Sync_WaitTime string
  | Proc_KernExec string "string option list option"
  | Fs_Open string "fs_flag list"
  | Proc_Exit int

text \<open>
  The collaborators are outside this file: what a call returns is given by an
  environment, which may answer differently depending on the calls made before.
  \<^verbatim>\<open>Proc_KernExec\<close> replaces the image of the calling process when it succeeds, so it
  comes back to its caller only when it has failed: \<open>None\<close> is "did not come back".
\<close>

record kenv =
  returns :: "kcall list \<Rightarrow> kcall \<Rightarrow> ReturnStatus"
  exec_returns :: "string \<Rightarrow> string option list option \<Rightarrow> ReturnStatus option"

section \<open>\<^verbatim>\<open>Init\<close>, lines 221 to 235\<close>

text \<open>The globals and macros \<^verbatim>\<open>Init\<close> reads: \<^verbatim>\<open>main_AltInit\<close> is a \<^verbatim>\<open>char *\<close> that is 0
  when no alternate init was configured, \<^verbatim>\<open>INIT\<close> is the path of the canonical init.\<close>

record init_config =
  main_AltInit :: "string option"
  INIT :: string

text \<open>How a process ends: its image was replaced by the program at a path, or it
  called \<^verbatim>\<open>Proc_Exit\<close> with a status.\<close>

datatype ending = Replaced string | Exited int

record run =
  calls :: "kcall list"
  ending :: ending

text \<open>
  \<^verbatim>\<open>
  status = Fs_Open(INIT, FS_EXECUTE | FS_FOLLOW, FS_FILE, 0, &dummy);
  if (status != SUCCESS)
      printf("Can't open %s <0x%x>\n", INIT,status);
  initArgs[0] = INIT;
  status = Proc_KernExec(initArgs[0], initArgs);
  printf("Init: Could not exec %s status %x.\n", initArgs[0], status);
  Proc_Exit(1);
  \<close>
\<close>

definition canonical_init :: "kenv \<Rightarrow> init_config \<Rightarrow> init_frame \<Rightarrow> kcall list \<Rightarrow> run" where
  "canonical_init env cfg fr t0 =
     (let open_call = Fs_Open (INIT cfg) [FS_EXECUTE, FS_FOLLOW];
          status = returns env t0 open_call;
          t1 = t0 @ [open_call];
          t2 = (if status \<noteq> SUCCESS
                then t1 @ [printf ''Can't open %s <0x%x>\<newline>'' [S (INIT cfg), X status]]
                else t1);
          fr1 = fr\<lparr>initArgs := (initArgs fr)[0 := Literal (INIT cfg)]\<rparr>;
          t3 = t2 @ [Proc_KernExec (INIT cfg) (arg_vector fr1)]
      in case exec_returns env (INIT cfg) (arg_vector fr1) of
           None \<Rightarrow> \<lparr> calls = t3, ending = Replaced (INIT cfg) \<rparr>
         | Some status' \<Rightarrow>
             \<lparr> calls = t3 @ [printf ''Init: Could not exec %s status %x.\<newline>''
                                 [S (INIT cfg), X status'],
                              Proc_Exit 1],
               ending = Exited 1 \<rparr>)"

text \<open>
  \<^verbatim>\<open>
  if (main_AltInit != 0) {
      initArgs[0] = main_AltInit;
      printf("Execing \"%s\"\n", initArgs[0]);
      status = Proc_KernExec(initArgs[0], initArgs);
      printf("Init: Could not exec %s status %x.\n", initArgs[0], status);
  }
  \<close>
  followed by the canonical attempt.
\<close>

definition launch :: "kenv \<Rightarrow> init_config \<Rightarrow> init_frame \<Rightarrow> run" where
  \<open>launch env cfg fr =
     (case main_AltInit cfg of
        None \<Rightarrow> canonical_init env cfg fr []
      | Some alt \<Rightarrow>
          (let fr1 = fr\<lparr>initArgs := (initArgs fr)[0 := Literal alt]\<rparr>;
               t1 = [printf ''Execing "%s"\<newline>'' [S alt],
                     Proc_KernExec alt (arg_vector fr1)]
           in case exec_returns env alt (arg_vector fr1) of
                None \<Rightarrow> \<lparr> calls = t1, ending = Replaced alt \<rparr>
              | Some status \<Rightarrow>
                  canonical_init env cfg fr1
                    (t1 @ [printf ''Init: Could not exec %s status %x.\<newline>''
                             [S alt, X status]])))\<close>

text \<open>
  The whole of \<^verbatim>\<open>Init\<close>: a fault while the argument vector is built, or a run. (The
  name \<open>Init\<close> itself is the entry point that \<^verbatim>\<open>main\<close> hands to \<^verbatim>\<open>Proc_NewProc\<close>.)
\<close>

definition Init_proc :: "32 word \<Rightarrow> kenv \<Rightarrow> init_config \<Rightarrow> boot_args \<Rightarrow> fault + run" where
  "Init_proc base env cfg ba =
     (case Init_args base ba of
        Inl e \<Rightarrow> Inl e
      | Inr fr \<Rightarrow> Inr (launch env cfg fr))"

text \<open>The calls \<^verbatim>\<open>Init\<close> makes, and how it ends.\<close>

definition Init_calls :: "32 word \<Rightarrow> kenv \<Rightarrow> init_config \<Rightarrow> boot_args \<Rightarrow> fault + kcall list" where
  "Init_calls base env cfg ba =
     (case Init_proc base env cfg ba of
        Inl e \<Rightarrow> Inl e
      | Inr r \<Rightarrow> Inr (calls r))"

definition Init_ending :: "32 word \<Rightarrow> kenv \<Rightarrow> init_config \<Rightarrow> boot_args \<Rightarrow> fault + ending" where
  "Init_ending base env cfg ba =
     (case Init_proc base env cfg ba of
        Inl e \<Rightarrow> Inl e
      | Inr r \<Rightarrow> Inr (ending r))"

section \<open>\<^verbatim>\<open>main\<close>, lines 36 to 186\<close>

text \<open>
  The global and the macros of other modules that \<^verbatim>\<open>main\<close> reads. The two macros are
  C \<^verbatim>\<open>int\<close> values that line 162 adds, so they are 32-bit words and their sum is the sum
  of words, read back as a signed number: it wraps where the sum of the two numbers
  does not fit 32 bits. \<^verbatim>\<open>main_NumRpcServers\<close> is only compared with the counter \<^verbatim>\<open>i\<close>,
  which counts up from 0 and stops at it, so no arithmetic on it can wrap and it is kept
  as an integer.
\<close>

record main_config =
  main_NumRpcServers :: int
  FSCACHE_MAX_CLEANER_PROCS :: "32 word"
  VM_MAX_PAGE_OUT_PROCS :: "32 word"

text \<open>The state \<^verbatim>\<open>main\<close> changes: the calls made so far, the global \<^verbatim>\<open>main_PanicOK\<close>
  and the loop counter \<^verbatim>\<open>i\<close>.\<close>

record kstate =
  trace :: "kcall list"
  main_PanicOK :: int
  loop_i :: int

text \<open>A call records itself and returns what the environment answers.\<close>

definition call :: "kenv \<Rightarrow> kcall \<Rightarrow> kstate \<Rightarrow> ReturnStatus \<times> kstate" where
  "call env c s = (returns env (trace s) c, s\<lparr>trace := trace s @ [c]\<rparr>)"

text \<open>
  A call used as a statement: \<^verbatim>\<open>f();\<close> or \<^verbatim>\<open>(void) f();\<close>. The returned status is
  dropped; no statement of \<^verbatim>\<open>main\<close> keeps one.
\<close>

definition stmt :: "kenv \<Rightarrow> kcall \<Rightarrow> kstate \<Rightarrow> kstate" where
  "stmt env c s = snd (call env c s)"

text \<open>A compound statement runs its statements from the first to the last.\<close>

definition block :: "(kstate \<Rightarrow> kstate) list \<Rightarrow> kstate \<Rightarrow> kstate" where
  "block ss s = foldl (\<lambda>s' f. f s') s ss"

text \<open>
  \<^verbatim>\<open>
  if (main_NumRpcServers > 0) {
      for (i = 0; i < main_NumRpcServers; i++)
          (void) Rpc_CreateServer((int *)&pid);
  }
  \<close>
\<close>

function rpc_server_loop :: "kenv \<Rightarrow> int \<Rightarrow> kstate \<Rightarrow> kstate" where
  "rpc_server_loop env n s =
     (if loop_i s < n
      then rpc_server_loop env n
             ((stmt env Rpc_CreateServer s)\<lparr>loop_i := loop_i s + 1\<rparr>)
      else s)"
  by pat_completeness auto
termination
  by (relation "measure (\<lambda>(env, n, s). nat (n - loop_i s))")
     (auto simp: stmt_def call_def)

declare rpc_server_loop.simps [simp del]

definition create_rpc_servers :: "kenv \<Rightarrow> main_config \<Rightarrow> kstate \<Rightarrow> kstate" where
  "create_rpc_servers env cfg s =
     (if main_NumRpcServers cfg > 0
      then rpc_server_loop env (main_NumRpcServers cfg) (s\<lparr>loop_i := 0\<rparr>)
      else s)"

text \<open>Lines 40 to 143: the initialisation calls, in the order of the source.\<close>

definition init_modules :: "kenv \<Rightarrow> kstate \<Rightarrow> kstate" where
  "init_modules env =
     block
      [stmt env Main_InitVars,
       stmt env Mach_Init,
       stmt env Sync_Init,
       stmt env Dbg_Init,
       stmt env (Mach_MonPrintf ''Sprite kernel for %s Built on %s at %s\<newline>''
                   [Expr ''machTarget'', Expr ''__DATE__'', Expr ''__TIME__'']),
       stmt env Sys_Init,
       stmt env Vm_BootInit,
       stmt env Dev_Init,
       stmt env Dump_Init,
       stmt env Proc_Init,
       stmt env Sync_LockStatInit,
       stmt env Timer_Init,
       stmt env Sig_Init,
       stmt env Sched_Init,
       (\<lambda>s. s\<lparr>main_PanicOK := main_PanicOK s + 1\<rparr>),
       stmt env SpriteVersion,
       stmt env (printf ''Sprite kernel: %s\<newline>'' [Expr ''SpriteVersion()'']),
       stmt env Fs_Bin,
       stmt env Net_Bin,
       stmt env Vm_Init,
       stmt env Proc_InitMainProc,
       stmt env Net_Init,
       stmt env Net_RouteInit,
       stmt env Proc_ServerInit,
       stmt env Recov_Init,
       stmt env Rpc_Init,
       stmt env Dev_Config,
       stmt env Prof_Init,
       stmt env Mach_MonStartNmi,
       stmt env ENABLE_INTR,
       stmt env Fsrecov_InitState,
       stmt env Fsrecov_DirOpInit,
       stmt env Sched_TimeTicks,
       stmt env Prof_Start,
       stmt env Rpc_Start,
       stmt env Fs_Init,
       stmt env Fs_ProcInit]"

text \<open>Lines 146 to 174: the deferred functions and the daemons.\<close>

definition spawn_daemons :: "kenv \<Rightarrow> main_config \<Rightarrow> kstate \<Rightarrow> kstate" where
  "spawn_daemons env cfg =
     block
      [stmt env (Proc_CallFunc Vm_Clock),
       stmt env (Proc_CallFunc Vm_OpenSwapDirectory),
       stmt env (Proc_CallFunc Fsutil_SyncProc),
       create_rpc_servers env cfg,
       stmt env (Proc_NewProc Rpc_Daemon ''Rpc_Daemon''),
       stmt env (Proc_ServerProcCreate
                   (sint (FSCACHE_MAX_CLEANER_PROCS cfg + VM_MAX_PAGE_OUT_PROCS cfg))),
       stmt env (Proc_NewProc Recov_Proc ''Recov_Proc''),
       stmt env Proc_MigInit]"

text \<open>Lines 177 to 185: the hook, the first user process, the wait and the exit.\<close>

definition finish_main :: "kenv \<Rightarrow> kstate \<Rightarrow> kstate" where
  "finish_main env =
     block
      [stmt env Main_HookRoutine,
       stmt env (printf ''MEMORY %d bytes allocated for kernel\<newline>''
                   [Expr ''vmMemEnd - mach_KernStart'']),
       stmt env (Proc_NewProc Init ''Init''),
       stmt env (Sync_WaitTime ''time_OneYear''),
       stmt env (Mach_MonPrintf ''Leaving main()\<newline>'' []),
       stmt env (Proc_Exit 0)]"

definition main :: "kenv \<Rightarrow> main_config \<Rightarrow> kstate \<Rightarrow> kstate" where
  "main env cfg = block [init_modules env, spawn_daemons env cfg, finish_main env]"

text \<open>The state \<^verbatim>\<open>main\<close> starts from, and the calls of a whole boot.\<close>

definition boot_state :: kstate where
  "boot_state = \<lparr> trace = [], main_PanicOK = 0, loop_i = 0 \<rparr>"

definition boot_trace :: "kenv \<Rightarrow> main_config \<Rightarrow> kcall list" where
  "boot_trace env cfg = trace (main env cfg boot_state)"

text \<open>The status a process exits with: the argument of its last call, when that call
  is \<^verbatim>\<open>Proc_Exit\<close>.\<close>

definition exit_status :: "kcall list \<Rightarrow> int option" where
  "exit_status t =
     (case rev t of Proc_Exit n # _ \<Rightarrow> Some n | _ \<Rightarrow> None)"

section \<open>Reading a sequence of calls\<close>

text \<open>The calls made before the first call of \<open>c\<close>, and those made after it.\<close>

definition calls_before :: "kcall \<Rightarrow> kcall list \<Rightarrow> kcall list" where
  "calls_before c t = takeWhile (\<lambda>x. x \<noteq> c) t"

definition calls_after :: "kcall \<Rightarrow> kcall list \<Rightarrow> kcall list" where
  "calls_after c t = tl (dropWhile (\<lambda>x. x \<noteq> c) t)"

text \<open>\<open>a\<close> precedes \<open>b\<close>: both are called, and no call of \<open>a\<close> is made at or after the
  first call of \<open>b\<close>.\<close>

definition precedes :: "kcall \<Rightarrow> kcall \<Rightarrow> kcall list \<Rightarrow> bool" where
  "precedes a b t \<longleftrightarrow> a \<in> set t \<and> b \<in> set t \<and> a \<notin> set (dropWhile (\<lambda>x. x \<noteq> b) t)"

text \<open>The calls that create processes.\<close>

fun creates_process :: "kcall \<Rightarrow> bool" where
  "creates_process Rpc_CreateServer = True"
| "creates_process (Proc_NewProc f name) = True"
| "creates_process (Proc_ServerProcCreate n) = True"
| "creates_process c = False"

fun is_NewProc_of :: "kfunc \<Rightarrow> kcall \<Rightarrow> bool" where
  "is_NewProc_of f (Proc_NewProc g name) = (f = g)"
| "is_NewProc_of f c = False"

fun is_ServerProcCreate :: "kcall \<Rightarrow> bool" where
  "is_ServerProcCreate (Proc_ServerProcCreate n) = True"
| "is_ServerProcCreate c = False"

text \<open>The attempts to exec and the messages that report their failure.\<close>

fun attempt_or_failure :: "kcall \<Rightarrow> bool" where
  "attempt_or_failure (Proc_KernExec path v) = True"
| "attempt_or_failure (printf fmt args) = (fmt = ''Init: Could not exec %s status %x.\<newline>'')"
| "attempt_or_failure c = False"

text \<open>An environment in which every collaborator returns the status \<open>st\<close> and every
  \<^verbatim>\<open>Proc_KernExec\<close> comes back with it.\<close>

definition always :: "ReturnStatus \<Rightarrow> kenv" where
  "always st = \<lparr> returns = (\<lambda>t c. st), exec_returns = (\<lambda>path v. Some st) \<rparr>"

section \<open>Properties of the argument reconstruction\<close>

subsection \<open>Arithmetic on addresses and the copy loop\<close>

lemma sint_word_of_nat_small:
  assumes "m < 2 ^ 31"
  shows "sint (word_of_nat m :: 32 word) = int m"
proof -
  have "sint (word_of_nat m :: 32 word) = signed_take_bit 31 (int m)"
    by (simp add: signed_of_nat)
  also have "\<dots> = int m"
    using assms by (intro signed_take_bit_int_eq_self) auto
  finally show ?thesis .
qed

lemma sint_offset:
  assumes "k + n + 1 < 2 ^ 31"
  shows "sint ((base :: 32 word) + word_of_nat k + word_of_nat n + 1 - base) = int k + int n + 1"
proof -
  have "(base :: 32 word) + word_of_nat k + word_of_nat n + 1 - base = word_of_nat (k + n + 1)"
    by simp
  then have "sint ((base :: 32 word) + word_of_nat k + word_of_nat n + 1 - base) = int (k + n + 1)"
    using sint_word_of_nat_small[OF assms] by (simp only:)
  then show ?thesis by simp
qed


lemma copy_loop_done: "\<not> i < n \<Longrightarrow> copy_loop i p n buf cmd = Inr cmd"
  by (subst copy_loop.simps) simp

lemma copy_loop_step:
  "i < n \<Longrightarrow> 0 \<le> i \<Longrightarrow> i < 100 \<Longrightarrow> nat i < length buf \<Longrightarrow> p < 103 \<Longrightarrow> p < length cmd \<Longrightarrow>
   copy_loop i p n buf cmd = copy_loop (i + 1) (p + 1) n buf (cmd[p := nul_to_space (buf ! nat i)])"
  by (subst copy_loop.simps) (simp add: nul_to_space_def)

lemma take_drop_step:
  "p < m \<Longrightarrow> p < length buf \<Longrightarrow>
   take (m - p) (drop p buf) = buf ! p # take (m - Suc p) (drop (Suc p) buf)"
proof -
  assume a: "p < m" "p < length buf"
  then obtain d where d: "m - p = Suc d" "m - Suc p = d"
    by (metis Suc_diff_Suc)
  from a have "drop p buf = buf ! p # drop (Suc p) buf"
    by (simp add: Cons_nth_drop_Suc)
  then show ?thesis using d by simp
qed

lemma copy_loop_eq:
  "0 \<le> i \<Longrightarrow> i \<le> n \<Longrightarrow> n \<le> 100 \<Longrightarrow> nat n \<le> length buf \<Longrightarrow> length cmd = 103 \<Longrightarrow>
   copy_loop i (nat i) n buf cmd
     = Inr (take (nat i) cmd @ map nul_to_space (take (nat n - nat i) (drop (nat i) buf))
            @ drop (nat n) cmd)"
proof (induction "nat (n - i)" arbitrary: i cmd)
  case 0
  then have "i = n" by simp
  then show ?case by (simp add: copy_loop_done)
next
  case (Suc d)
  define p where "p = nat i"
  let ?x = "nul_to_space (buf ! p)"
  from Suc.hyps(2) have lt: "i < n" by linarith
  have p1: "nat (i + 1) = Suc p" using Suc.prems(1) by (simp add: p_def nat_add_distrib)
  have pn: "p < nat n" using lt Suc.prems(1) by (simp add: p_def)
  have pbuf: "p < length buf" using pn Suc.prems(4) by linarith
  have n100: "nat n \<le> 100" using Suc.prems(3) by simp
  have pcmd: "p < length cmd" "p < 103" using pn n100 Suc.prems(5) by linarith+
  have i100: "i < 100" using lt Suc.prems(3) by linarith
  have step: "copy_loop i p n buf cmd = copy_loop (i + 1) (Suc p) n buf (cmd[p := ?x])"
    using copy_loop_step[of i n buf p cmd] lt Suc.prems(1) i100 pbuf pcmd by (simp add: p_def)
  have d: "d = nat (n - (i + 1))" using Suc.hyps(2) by linarith
  have ih: "copy_loop (i + 1) (Suc p) n buf (cmd[p := ?x])
       = Inr (take (Suc p) (cmd[p := ?x]) @ map nul_to_space (take (nat n - Suc p) (drop (Suc p) buf))
              @ drop (nat n) (cmd[p := ?x]))"
    using Suc.hyps(1)[where i = "i + 1" and cmd = "cmd[p := ?x]", OF d] Suc.prems lt unfolding p1 by simp
  have a: "take (Suc p) (cmd[p := ?x]) = take p cmd @ [?x]"
    using pcmd by (simp add: take_Suc_conv_app_nth)
  have b: "drop (nat n) (cmd[p := ?x]) = drop (nat n) cmd"
    using pn by simp
  have c: "take (nat n - p) (drop p buf) = buf ! p # take (nat n - Suc p) (drop (Suc p) buf)"
    using take_drop_step[OF pn pbuf] .
  show ?case unfolding p_def[symmetric] step ih a b c by simp
qed

lemma reconstruct_eq:
  assumes "0 < n" "n \<le> 100" "nat n \<le> length buf"
  shows "reconstruct buf (replicate 103 NUL) n
           = Inr (map nul_to_space (take (nat n) buf) @ replicate (103 - nat n) NUL)"
proof -
  let ?m = "map nul_to_space (take (nat n) buf)"
  have cl: "copy_loop 0 0 n buf (replicate 103 NUL) = Inr (?m @ replicate (103 - nat n) NUL)"
    using assms copy_loop_eq[of 0 n buf "replicate 103 NUL"] by simp
  have len: "length ?m = nat n" using assms by simp
  have "(?m @ replicate (103 - nat n) NUL)[nat n := NUL] = ?m @ (replicate (103 - nat n) NUL)[0 := NUL]"
    using len by (simp add: list_update_append)
  also have "(replicate (103 - nat n) NUL)[0 := NUL] = replicate (103 - nat n) NUL"
    by (rule list_update_same_conv[THEN iffD2]) (use assms in auto)
  finally have upd: "(?m @ replicate (103 - nat n) NUL)[nat n := NUL] = ?m @ replicate (103 - nat n) NUL" .
  show ?thesis
    using assms len upd by (simp add: reconstruct_def cl store_bootCommand_def)
qed

lemma NUL_neq_SPACE: "SPACE \<noteq> NUL"
  by (simp add: NUL_def SPACE_def)

lemma nul_to_space_not_NUL: "nul_to_space c \<noteq> NUL"
  by (simp add: nul_to_space_def NUL_neq_SPACE)

lemma layout_Nil: "layout [] = []"
  by (simp add: layout_def)

lemma layout_Cons: "layout (f # fs) = f @ NUL # layout fs"
  by (simp add: layout_def)

lemma layout_snoc: "layout (fs @ [f]) = layout fs @ f @ [NUL]"
  by (simp add: layout_def)

lemma length_fragment_offsets: "length (fragment_offsets k fs) = length fs"
  by (induction fs arbitrary: k) auto

lemma fragment_offsets_snoc:
  "fragment_offsets k (fs @ [f]) = fragment_offsets k fs @ [k + length (layout fs)]"
  by (induction fs arbitrary: k) (auto simp: layout_Nil layout_Cons)

lemma cstring_layout_last:
  assumes "NUL \<notin> set f"
  shows "takeWhile (\<lambda>c. c \<noteq> NUL) (drop (length (layout fs)) (layout (fs @ [f]) @ rest)) = f"
    and "NUL \<in> set (drop (length (layout fs)) (layout (fs @ [f]) @ rest))"
proof -
  have all: "\<forall>x\<in>set f. x \<noteq> NUL" using assms by auto
  have d: "drop (length (layout fs)) (layout (fs @ [f]) @ rest) = f @ NUL # rest"
    by (simp add: layout_snoc)
  show "takeWhile (\<lambda>c. c \<noteq> NUL) (drop (length (layout fs)) (layout (fs @ [f]) @ rest)) = f"
    unfolding d using all by (simp add: takeWhile_append2)
  show "NUL \<in> set (drop (length (layout fs)) (layout (fs @ [f]) @ rest))"
    unfolding d by simp
qed

lemma map_nul_to_space_layout:
  "list_all (\<lambda>f. NUL \<notin> set f) fs \<Longrightarrow>
   map nul_to_space (layout fs) = concat (map (\<lambda>f. f @ [SPACE]) fs)"
proof (induction fs)
  case Nil
  show ?case by (simp add: layout_Nil)
next
  case (Cons f fs)
  have "map nul_to_space f = f"
    using Cons.prems by (auto simp: nul_to_space_def intro: map_idI)
  moreover have "map nul_to_space (layout fs) = concat (map (\<lambda>f. f @ [SPACE]) fs)"
    using Cons by simp
  moreover have "nul_to_space NUL = SPACE" by (simp add: nul_to_space_def)
  ultimately show ?case by (simp add: layout_Cons)
qed

lemma drop_has_NUL_bound:
  assumes "NUL \<in> set (drop k buf)"
  shows "k + length (takeWhile (\<lambda>c. c \<noteq> NUL) (drop k buf)) + 1 \<le> length buf"
proof -
  let ?xs = "drop k buf"
  have "dropWhile (\<lambda>c. c \<noteq> NUL) ?xs \<noteq> []"
    using assms by (simp add: dropWhile_eq_Nil_conv)
  then have a: "0 < length (dropWhile (\<lambda>c. c \<noteq> NUL) ?xs)" by simp
  have b: "length ?xs = length (takeWhile (\<lambda>c. c \<noteq> NUL) ?xs)
                               + length (dropWhile (\<lambda>c. c \<noteq> NUL) ?xs)"
    by (metis length_append takeWhile_dropWhile_id)
  have c: "k < length buf" using assms by (cases "k < length buf") auto
  have d: "length ?xs = length buf - k" by simp
  show ?thesis using a b c unfolding d by linarith
qed

lemma compute_argLength_eq:
  assumes argc: "0 < ba_argc ba" "ba_argc ba \<le> 8"
      and argv: "length (ba_argv ba) = nat (ba_argc ba)"
      and nul: "NUL \<in> set (drop (last (ba_argv ba)) (ba_buffer ba))"
      and len: "length (ba_buffer ba) = 100"
  shows "compute_argLength base (frame_after_parse ba) (ba_argc ba)
           = Inr (int (last (ba_argv ba))
                  + int (length (takeWhile (\<lambda>c. c \<noteq> NUL) (drop (last (ba_argv ba)) (ba_buffer ba))))
                  + 1)"
proof -
  let ?k = "last (ba_argv ba)"
  let ?n = "length (takeWhile (\<lambda>c. c \<noteq> NUL) (drop ?k (ba_buffer ba)))"
  define j where "j = nat (ba_argc ba) - 1"
  have j: "j < length (ba_argv ba)" "nat (ba_argc ba + 1) = j + 2"
    using argc argv by (auto simp: j_def)
  have ne: "ba_argv ba \<noteq> []" using j by auto
  have lastj: "ba_argv ba ! j = ?k"
    using ne argv by (simp add: last_conv_nth j_def)
  have "initArgs (frame_after_parse ba) ! (j + 2) = InArgBuffer (ba_argv ba ! j)"
    using j argc argv by (simp add: frame_after_parse_def nth_append)
  then have ld: "load_initArgs (initArgs (frame_after_parse ba)) (ba_argc ba + 1) = Inr (InArgBuffer ?k)"
    using argc j lastj by (simp add: load_initArgs_def)
  have "?k + ?n + 1 \<le> 100" using drop_has_NUL_bound[OF nul] len by simp
  then have small: "?k + ?n + 1 < 2 ^ 31" by simp
  have buf: "argBuffer (frame_after_parse ba) = ba_buffer ba"
    by (simp add: frame_after_parse_def)
  show ?thesis
    using argc nul sint_offset[OF small, of base]
    by (simp add: compute_argLength_def ld int_of_pointer_def strlen_pointer_def strlen_at_def buf)
qed

lemma compute_argLength_zero:
  "argc \<le> 0 \<Longrightarrow> compute_argLength base fr argc = Inr 0"
  by (simp add: compute_argLength_def)

lemma contract_lengths:
  assumes "boundary_contract frags rest"
  shows "length (layout frags) \<le> 100" "length (layout frags @ rest) = 100" "length frags \<le> 8"
  using assms by (simp_all add: boundary_contract_def)

lemma compute_argLength_snoc:
  assumes c: "boundary_contract (fs @ [f]) rest"
  shows "compute_argLength base (frame_after_parse (Mach_GetBootArgs (fs @ [f]) rest))
           (ba_argc (Mach_GetBootArgs (fs @ [f]) rest)) = Inr (int (length (layout (fs @ [f]))))"
proof -
  define ba where "ba = Mach_GetBootArgs (fs @ [f]) rest"
  have nf: "NUL \<notin> set f" using c by (simp add: boundary_contract_def)
  have lastk: "last (ba_argv ba) = length (layout fs)"
    by (simp add: ba_def Mach_GetBootArgs_def fragment_offsets_snoc)
  have b: "ba_buffer ba = layout (fs @ [f]) @ rest" by (simp add: ba_def Mach_GetBootArgs_def)
  have 1: "0 < ba_argc ba" "ba_argc ba \<le> 8" "length (ba_argv ba) = nat (ba_argc ba)"
    using contract_lengths[OF c] by (simp_all add: ba_def Mach_GetBootArgs_def length_fragment_offsets)
  have 2: "NUL \<in> set (drop (last (ba_argv ba)) (ba_buffer ba))"
    unfolding lastk b by (rule cstring_layout_last(2)[OF nf])
  have 3: "length (ba_buffer ba) = 100"
    using contract_lengths[OF c] by (simp add: ba_def Mach_GetBootArgs_def)
  have 4: "length (takeWhile (\<lambda>c. c \<noteq> NUL) (drop (length (layout fs)) (ba_buffer ba))) = length f"
    using cstring_layout_last(1)[OF nf, of fs rest] by (simp add: b)
  have "compute_argLength base (frame_after_parse ba) (ba_argc ba)
          = Inr (int (length (layout (fs @ [f]))))"
    by (simp add: compute_argLength_eq[OF 1 2 3] lastk 4 layout_snoc)
  then show ?thesis by (simp only: ba_def)
qed

lemma compute_argLength_layout:
  assumes c: "boundary_contract frags rest" and ne: "frags \<noteq> []"
  shows "compute_argLength base (frame_after_parse (Mach_GetBootArgs frags rest))
           (ba_argc (Mach_GetBootArgs frags rest)) = Inr (int (length (layout frags)))"
proof -
  obtain fs f where fr: "frags = fs @ [f]" using ne by (metis rev_exhaust)
  show ?thesis using compute_argLength_snoc[of fs f rest base] c unfolding fr by simp
qed

lemma reconstruct_layout:
  assumes c: "boundary_contract frags rest" and ne: "frags \<noteq> []"
  shows "reconstruct (layout frags @ rest) (replicate 103 NUL) (int (length (layout frags)))
           = Inr (map nul_to_space (layout frags) @ replicate (103 - length (layout frags)) NUL)"
proof -
  obtain f fs where "frags = f # fs" using ne by (cases frags) auto
  then have pos: "0 < int (length (layout frags))" by (simp add: layout_Cons)
  show ?thesis
    using reconstruct_eq[OF pos, of "layout frags @ rest"] contract_lengths[OF c] by simp
qed

lemma cstring_here:
  "NUL \<notin> set f \<Longrightarrow> cstring (pre @ f @ NUL # post) (length pre) = Some f"
proof -
  assume "NUL \<notin> set f"
  then have "\<forall>x\<in>set f. x \<noteq> NUL" by auto
  then show ?thesis by (simp add: cstring_def takeWhile_append2)
qed

lemma cstring_fragments:
  "list_all (\<lambda>f. NUL \<notin> set f) fs \<Longrightarrow>
   map (cstring (pre @ layout fs @ rest)) (fragment_offsets (length pre) fs) = map Some fs"
proof (induction fs arbitrary: pre)
  case Nil
  show ?case by simp
next
  case (Cons f fs)
  have nf: "NUL \<notin> set f" and rest: "list_all (\<lambda>f. NUL \<notin> set f) fs" using Cons.prems by auto
  have h: "cstring (pre @ f @ NUL # layout fs @ rest) (length pre) = Some f"
    using cstring_here[OF nf] by simp
  have "map (cstring ((pre @ f @ [NUL]) @ layout fs @ rest))
          (fragment_offsets (length (pre @ f @ [NUL])) fs) = map Some fs"
    by (rule Cons.IH[OF rest])
  then have t: "map (cstring (pre @ f @ NUL # layout fs @ rest))
          (fragment_offsets (length pre + length f + 1) fs) = map Some fs"
    by simp
  show ?case using h t by (simp add: layout_Cons)
qed

lemma cstring_command:
  "n < 103 \<Longrightarrow> length xs = n \<Longrightarrow>
   cstring (map nul_to_space xs @ replicate (103 - n) NUL) 0 = Some (map nul_to_space xs)"
proof -
  assume a: "n < 103" "length xs = n"
  have all: "\<And>x. x \<in> set (map nul_to_space xs) \<Longrightarrow> x \<noteq> NUL"
    by (auto simp: nul_to_space_not_NUL)
  obtain d where d: "103 - n = Suc d" using a by (metis Suc_diff_Suc diff_zero zero_less_diff)
  have "takeWhile (\<lambda>c. c \<noteq> NUL) (map nul_to_space xs @ NUL # replicate d NUL)
          = map nul_to_space xs"
    using takeWhile_append2[of "map nul_to_space xs" "\<lambda>c. c \<noteq> NUL" "NUL # replicate d NUL"] all
    by simp
  then show ?thesis by (simp add: cstring_def d)
qed

lemma Init_args_layout:
  assumes c: "boundary_contract (f # fs) rest" and m: "length (f # fs) \<le> 7"
  shows "Init_args base (Mach_GetBootArgs (f # fs) rest)
           = Inr \<lparr> initArgs = [Indeterminate, Literal ''-b'', InBootCommand 0]
                               @ map InArgBuffer (fragment_offsets (length f + 1) fs)
                               @ NIL # replicate (6 - length fs) Indeterminate,
                    argBuffer = layout (f # fs) @ rest,
                    bootCommand = map nul_to_space (layout (f # fs))
                                  @ replicate (103 - length (layout (f # fs))) NUL \<rparr>"
proof -
  define ba where "ba = Mach_GetBootArgs (f # fs) rest"
  define os where "os = map InArgBuffer (fragment_offsets (length f + 1) fs)"
  define I where "I = Indeterminate"
  have los: "length os = length fs" by (simp add: os_def length_fragment_offsets)
  have six: "replicate (7 - length fs) Indeterminate
               = Indeterminate # replicate (6 - length fs) Indeterminate"
    using m by (simp add: Suc_diff_le flip: replicate_Suc)
  have fa: "frame_after_parse ba
       = \<lparr> initArgs = [I, I, InArgBuffer 0] @ os @ I # replicate (6 - length fs) I,
           argBuffer = layout (f # fs) @ rest, bootCommand = replicate 103 NUL \<rparr>"
    using m by (simp add: frame_after_parse_def ba_def Mach_GetBootArgs_def os_def I_def
                  length_fragment_offsets six)
  define argc where "argc = ba_argc ba"
  have argc: "argc = int (length fs) + 1" by (simp add: argc_def ba_def Mach_GetBootArgs_def)
  have al: "compute_argLength base (frame_after_parse ba) (ba_argc ba)
              = Inr (int (length (layout (f # fs))))"
    unfolding ba_def by (rule compute_argLength_layout[OF c]) simp
  have pos: "0 < int (length (layout (f # fs)))" by (simp add: layout_Cons)
  have rc: "reconstruct (layout (f # fs) @ rest) (replicate 103 NUL) (int (length (layout (f # fs))))
           = Inr (map nul_to_space (layout (f # fs)) @ replicate (103 - length (layout (f # fs))) NUL)"
    by (rule reconstruct_layout[OF c]) simp
  define tl_part where "tl_part = os @ I # replicate (6 - length fs) I"
  have st1: "store_initArgs ([I, I, InArgBuffer 0] @ tl_part) 1 (Literal ''-b'')
               = Inr ([I, Literal ''-b'', InArgBuffer 0] @ tl_part)"
    by (simp add: store_initArgs_def)
  have st2: "store_initArgs ([I, Literal ''-b'', InArgBuffer 0] @ tl_part) 2 (InBootCommand 0)
               = Inr ([I, Literal ''-b'', InBootCommand 0] @ tl_part)"
    by (simp add: store_initArgs_def)
  have idx: "nat (argc + 2) = length ([I, Literal ''-b'', InBootCommand 0] @ os)"
    by (simp add: los argc)
  have upd: "([I, Literal ''-b'', InBootCommand 0] @ tl_part)[nat (argc + 2) := NIL]
               = [I, Literal ''-b'', InBootCommand 0] @ os @ NIL # replicate (6 - length fs) I"
    unfolding idx tl_part_def by (metis append.assoc list_update_length)
  have in_range: "0 \<le> argc + 2 \<and> argc + 2 < 10" using m by (simp add: argc)
  have st3: "store_initArgs ([I, Literal ''-b'', InBootCommand 0] @ tl_part)
               (argc + 2) NIL
               = Inr ([I, Literal ''-b'', InBootCommand 0] @ os @ NIL # replicate (6 - length fs) I)"
    unfolding store_initArgs_def upd using in_range by simp
  have "build_args (frame_after_parse ba) (ba_argc ba) (int (length (layout (f # fs))))
          = Inr \<lparr> initArgs = [I, Literal ''-b'', InBootCommand 0] @ os @ NIL # replicate (6 - length fs) I,
                   argBuffer = layout (f # fs) @ rest,
                   bootCommand = map nul_to_space (layout (f # fs))
                                  @ replicate (103 - length (layout (f # fs))) NUL \<rparr>"
    unfolding build_args_def fa argc_def[symmetric] tl_part_def[symmetric]
    using pos by (simp add: st1 st2 st3 rc del: append.simps)
  then show ?thesis
    unfolding Init_args_def ba_def[symmetric] Let_def al
    by (simp add: os_def I_def)
qed

lemma takeWhile_not_NIL:
  "takeWhile (\<lambda>p. p \<noteq> NIL) (map InArgBuffer ks @ NIL # ps) = map InArgBuffer ks"
  by (induction ks) auto

lemma arg_vector_layout:
  assumes c: "boundary_contract (f # fs) rest" and m: "length (f # fs) \<le> 7"
      and fr: "Init_args base (Mach_GetBootArgs (f # fs) rest) = Inr fr"
  shows "arg_vector (fr\<lparr>initArgs := (initArgs fr)[0 := Literal path]\<rparr>)
           = Some ([Some path, Some ''-b'', Some (concat (map (\<lambda>g. g @ [SPACE]) (f # fs)))]
                   @ map Some fs)"
proof -
  define ks where "ks = fragment_offsets (length f + 1) fs"
  define cmd where "cmd = map nul_to_space (layout (f # fs))
                     @ replicate (103 - length (layout (f # fs))) NUL"
  define tail where "tail = replicate (6 - length fs) Indeterminate"
  define buf where "buf = layout (f # fs) @ rest"
  have fr_eq: "fr = \<lparr> initArgs = [Indeterminate, Literal ''-b'', InBootCommand 0]
                               @ map InArgBuffer ks @ NIL # tail,
                       argBuffer = buf, bootCommand = cmd \<rparr>"
    using fr unfolding Init_args_layout[OF c m] ks_def cmd_def tail_def buf_def by simp
  have nul: "list_all (\<lambda>g. NUL \<notin> set g) (f # fs)" using c by (simp add: boundary_contract_def)
  have n: "length (layout (f # fs)) < 103" using contract_lengths(1)[OF c] by simp
  have cm: "cstring cmd 0 = Some (concat (map (\<lambda>g. g @ [SPACE]) (f # fs)))"
    unfolding cmd_def using cstring_command[OF n refl] map_nul_to_space_layout[OF nul] by simp
  have "map (cstring ((f @ [NUL]) @ layout fs @ rest)) (fragment_offsets (length (f @ [NUL])) fs)
          = map Some fs"
    using nul by (intro cstring_fragments) simp
  then have frs: "map (cstring buf) ks = map Some fs"
    by (simp add: buf_def ks_def layout_Cons)
  have fr': "map (\<lambda>p. case p of Literal s \<Rightarrow> Some s
                       | InArgBuffer k \<Rightarrow> cstring buf k
                       | InBootCommand k \<Rightarrow> cstring cmd k
                       | _ \<Rightarrow> None) (map InArgBuffer ks) = map Some fs"
    using frs by (simp add: comp_def)
  show ?thesis
    unfolding fr_eq
    using cm fr' by (simp add: arg_vector_def deref_def takeWhile_not_NIL comp_def)
qed

lemma command_line_layout:
  assumes c: "boundary_contract (f # fs) rest" and m: "length (f # fs) \<le> 7"
  shows "command_line base (Mach_GetBootArgs (f # fs) rest)
           = Inr (Some (concat (map (\<lambda>g. g @ [SPACE]) (f # fs))))"
proof -
  have nul: "list_all (\<lambda>g. NUL \<notin> set g) (f # fs)" using c by (simp add: boundary_contract_def)
  have n: "length (layout (f # fs)) < 103" using contract_lengths(1)[OF c] by simp
  show ?thesis
    unfolding command_line_def Init_args_layout[OF c m]
    using cstring_command[OF n refl] map_nul_to_space_layout[OF nul] by simp
qed

lemma exec_vector_layout:
  assumes c: "boundary_contract (f # fs) rest" and m: "length (f # fs) \<le> 7"
  shows "exec_vector base (Mach_GetBootArgs (f # fs) rest) path
           = Inr (Some ([Some path, Some ''-b'', Some (concat (map (\<lambda>g. g @ [SPACE]) (f # fs)))]
                        @ map Some fs))"
proof -
  obtain fr where fr: "Init_args base (Mach_GetBootArgs (f # fs) rest) = Inr fr"
    using Init_args_layout[OF c m] by blast
  show ?thesis
    unfolding exec_vector_def fr using arg_vector_layout[OF c m fr] by simp
qed

lemma Init_args_no_fragments:
  assumes "ba_argc ba \<le> 0"
  shows "Init_args base ba
           = Inr ((frame_after_parse ba)\<lparr>initArgs := (initArgs (frame_after_parse ba))[1 := NIL]\<rparr>)"
  using assms
  by (simp add: Init_args_def Let_def compute_argLength_zero build_args_def store_initArgs_def)

lemma arg_vector_no_fragments:
  "arg_vector ((frame_after_parse ba)
       \<lparr>initArgs := (initArgs (frame_after_parse ba))[1 := NIL, 0 := Literal path]\<rparr>)
     = Some [Some path]"
  by (simp add: arg_vector_def frame_after_parse_def deref_def)

lemma Init_args_eight:
  assumes c: "boundary_contract frags rest" and m: "length frags = 8"
  shows "Init_args base (Mach_GetBootArgs frags rest) = Inl (InitArgsOutOfBounds 10)"
proof -
  define ba where "ba = Mach_GetBootArgs frags rest"
  have ne: "frags \<noteq> []" using m by auto
  have argc: "ba_argc ba = 8" using m by (simp add: ba_def Mach_GetBootArgs_def)
  have al: "compute_argLength base (frame_after_parse ba) (ba_argc ba)
              = Inr (int (length (layout frags)))"
    unfolding ba_def by (rule compute_argLength_layout[OF c ne])
  obtain f fs where "frags = f # fs" using ne by (cases frags) auto
  then have pos: "0 < int (length (layout frags))" by (simp add: layout_Cons)
  have rc: "reconstruct (argBuffer (frame_after_parse ba)) (bootCommand (frame_after_parse ba))
              (int (length (layout frags)))
           = Inr (map nul_to_space (layout frags) @ replicate (103 - length (layout frags)) NUL)"
    using reconstruct_layout[OF c ne] by (simp add: frame_after_parse_def ba_def Mach_GetBootArgs_def)
  have "build_args (frame_after_parse ba) 8 (int (length (layout frags)))
          = Inl (InitArgsOutOfBounds 10)"
    unfolding build_args_def using pos by (simp add: rc store_initArgs_def)
  then show ?thesis
    unfolding Init_args_def Let_def ba_def[symmetric] al by (simp add: argc)
qed

lemma exec_vector_no_fragments:
  assumes "ba_argc ba \<le> 0"
  shows "exec_vector base ba path = Inr (Some [Some path])"
  unfolding exec_vector_def Init_args_no_fragments[OF assms]
  using arg_vector_no_fragments[of ba path] by simp

lemma Init_slots_layout:
  assumes c: "boundary_contract (f # fs) rest" and m: "length (f # fs) \<le> 7"
  shows "Init_slots base (Mach_GetBootArgs (f # fs) rest)
           = Inr ([Indeterminate, Literal ''-b'', InBootCommand 0]
                  @ map InArgBuffer (tl (fragment_offsets 0 (f # fs)))
                  @ NIL # replicate (7 - length (f # fs)) Indeterminate)"
  unfolding Init_slots_def Init_args_layout[OF c m] by simp

section \<open>The claims about \<^verbatim>\<open>Init\<close>: reconstruction and argument vector\<close>

text \<open>
  Claim C1, as stated, at the two fragments \<^verbatim>\<open>root=/dev/sda1\<close> and \<^verbatim>\<open>quiet\<close>: the claim
  gives the reconstructed string as \<^verbatim>\<open>"root=/dev/sda1 quiet"\<close>. The computed length
  includes the NUL that ends the last fragment, the loop turns that NUL into a space
  too, and the string the code leaves in \<^verbatim>\<open>bootCommand\<close> ends with a space.
\<close>

theorem C1_counterexample:
  "command_line 0 (Mach_GetBootArgs [''root=/dev/sda1'', ''quiet''] (replicate 79 (CHR ''#'')))
     = Inr (Some ''root=/dev/sda1 quiet '')
   \<and> command_line 0 (Mach_GetBootArgs [''root=/dev/sda1'', ''quiet''] (replicate 79 (CHR ''#'')))
     \<noteq> Inr (Some ''root=/dev/sda1 quiet'')"
proof -
  have c: "boundary_contract (''root=/dev/sda1'' # [''quiet'']) (replicate 79 (CHR ''#''))"
    by (simp add: boundary_contract_def layout_def NUL_def)
  show ?thesis
    using command_line_layout[OF c, of 0] by (simp add: SPACE_def)
qed

text \<open>
  Claim C1, amended: for every fragment buffer and every positive length up to 100, the
  reconstruction is the copy of that many bytes of the buffer with every NUL among
  them replaced by a space, followed by a NUL at that length. For a non-empty buffer
  laid out as the boundary contract says, the computed length is the length of the
  laid-out fragments, so the NULs replaced are the separators and the NUL that ends the
  last fragment, and the string so left is every fragment followed by one space. With
  at most 7 fragments it is the command line \<^verbatim>\<open>Init\<close> ends with.
\<close>

theorem C1_reconstruction:
  "(0 < n \<and> n \<le> 100 \<and> nat n \<le> length buf
      \<longrightarrow> reconstruct buf (replicate 103 NUL) n
            = Inr (spec_command_line buf (nat n) @ replicate (102 - nat n) NUL))
   \<and> (boundary_contract frags rest \<and> frags \<noteq> []
      \<longrightarrow> compute_argLength base (frame_after_parse (Mach_GetBootArgs frags rest))
              (ba_argc (Mach_GetBootArgs frags rest)) = Inr (int (length (layout frags)))
          \<and> reconstruct (argBuffer (frame_after_parse (Mach_GetBootArgs frags rest)))
              (bootCommand (frame_after_parse (Mach_GetBootArgs frags rest)))
              (int (length (layout frags)))
            = Inr (spec_command_line (ba_buffer (Mach_GetBootArgs frags rest))
                     (length (layout frags))
                   @ replicate (102 - length (layout frags)) NUL)
          \<and> cstring (spec_command_line (ba_buffer (Mach_GetBootArgs frags rest))
                       (length (layout frags))
                     @ replicate (102 - length (layout frags)) NUL) 0
            = Some (concat (map (\<lambda>f. f @ [SPACE]) frags))
          \<and> (length frags \<le> 7 \<longrightarrow>
               command_line base (Mach_GetBootArgs frags rest)
                 = Inr (Some (concat (map (\<lambda>f. f @ [SPACE]) frags)))))"
proof (intro conjI impI)
  assume a: "0 < n \<and> n \<le> 100 \<and> nat n \<le> length buf"
  then have "103 - nat n = Suc (102 - nat n)" by linarith
  then have rep: "replicate (103 - nat n) NUL = NUL # replicate (102 - nat n) NUL"
    by simp
  show "reconstruct buf (replicate 103 NUL) n
          = Inr (spec_command_line buf (nat n) @ replicate (102 - nat n) NUL)"
    using reconstruct_eq[of n buf] a by (simp add: spec_command_line_def rep)
next
  assume h: "boundary_contract frags rest \<and> frags \<noteq> []"
  then have c: "boundary_contract frags rest" and ne: "frags \<noteq> []" by simp_all
  obtain f fs where fr: "frags = f # fs" using ne by (cases frags) auto
  define m where "m = length (layout frags)"
  have m: "m \<le> 100" "m < 103" using contract_lengths(1)[OF c] by (simp_all add: m_def)
  have nul: "list_all (\<lambda>g. NUL \<notin> set g) frags" using c by (simp add: boundary_contract_def)
  have rep: "replicate (103 - m) NUL = NUL # replicate (102 - m) NUL"
    using m by (simp add: Suc_diff_le flip: replicate_Suc)
  have sc: "spec_command_line (layout frags @ rest) m @ replicate (102 - m) NUL
              = map nul_to_space (layout frags) @ replicate (103 - m) NUL"
    by (simp add: spec_command_line_def m_def rep[unfolded m_def])
  have buf: "argBuffer (frame_after_parse (Mach_GetBootArgs frags rest)) = layout frags @ rest"
       "bootCommand (frame_after_parse (Mach_GetBootArgs frags rest)) = replicate 103 NUL"
       "ba_buffer (Mach_GetBootArgs frags rest) = layout frags @ rest"
    by (simp_all add: frame_after_parse_def Mach_GetBootArgs_def)
  show "compute_argLength base (frame_after_parse (Mach_GetBootArgs frags rest))
             (ba_argc (Mach_GetBootArgs frags rest)) = Inr (int (length (layout frags)))"
    by (rule compute_argLength_layout[OF c ne])
  show "reconstruct (argBuffer (frame_after_parse (Mach_GetBootArgs frags rest)))
              (bootCommand (frame_after_parse (Mach_GetBootArgs frags rest)))
              (int (length (layout frags)))
            = Inr (spec_command_line (ba_buffer (Mach_GetBootArgs frags rest))
                     (length (layout frags))
                   @ replicate (102 - length (layout frags)) NUL)"
    unfolding buf m_def[symmetric] sc unfolding m_def by (rule reconstruct_layout[OF c ne])
  show "cstring (spec_command_line (ba_buffer (Mach_GetBootArgs frags rest))
                       (length (layout frags))
                     @ replicate (102 - length (layout frags)) NUL) 0
            = Some (concat (map (\<lambda>f. f @ [SPACE]) frags))"
    unfolding buf m_def[symmetric] sc
    using cstring_command[OF m(2), of "layout frags"] map_nul_to_space_layout[OF nul]
    by (simp add: m_def)
  show "command_line base (Mach_GetBootArgs frags rest)
                 = Inr (Some (concat (map (\<lambda>f. f @ [SPACE]) frags)))"
    if "length frags \<le> 7"
    using command_line_layout[of f fs rest base] c that unfolding fr by simp
qed

theorem C1_reconstruction_witness:
  "(0 :: int) < 21 \<and> (21 :: int) \<le> 100
   \<and> boundary_contract [''root=/dev/sda1'', ''quiet''] (replicate 79 (CHR ''#''))
   \<and> [''root=/dev/sda1'', ''quiet''] \<noteq> []
   \<and> length [''root=/dev/sda1'', ''quiet''] \<le> 7
   \<and> compute_argLength 0
        (frame_after_parse (Mach_GetBootArgs [''root=/dev/sda1'', ''quiet''] (replicate 79 (CHR ''#''))))
        (ba_argc (Mach_GetBootArgs [''root=/dev/sda1'', ''quiet''] (replicate 79 (CHR ''#'')))) = Inr 21
   \<and> reconstruct (''root=/dev/sda1'' @ [NUL] @ ''quiet'' @ [NUL] @ replicate 79 (CHR ''#''))
        (replicate 103 NUL) 21
       = Inr (''root=/dev/sda1 quiet '' @ replicate 82 NUL)
   \<and> command_line 0 (Mach_GetBootArgs [''root=/dev/sda1'', ''quiet''] (replicate 79 (CHR ''#'')))
       = Inr (Some ''root=/dev/sda1 quiet '')"
proof -
  have c: "boundary_contract [''root=/dev/sda1'', ''quiet''] (replicate 79 (CHR ''#''))"
    by (simp add: boundary_contract_def layout_def NUL_def)
  have r: "reconstruct (''root=/dev/sda1'' @ [NUL] @ ''quiet'' @ [NUL] @ replicate 79 (CHR ''#''))
        (replicate 103 NUL) 21
       = Inr (''root=/dev/sda1 quiet '' @ replicate 82 NUL)"
    using C1_reconstruction[of 21
        "''root=/dev/sda1'' @ [NUL] @ ''quiet'' @ [NUL] @ replicate 79 (CHR ''#'')" "[]" "[]" 0]
    by (simp add: spec_command_line_def nul_to_space_def SPACE_def NUL_def
          eval_nat_numeral replicate_append_same)
  show ?thesis
    using C1_reconstruction[of 21 "[]" "[''root=/dev/sda1'', ''quiet'']"
        "replicate 79 (CHR ''#'')" 0] c r
    by (simp add: SPACE_def layout_def)
qed

text \<open>
  Claim C2, as stated, at the same two fragments: the claim gives the vector as the
  path, \<^verbatim>\<open>-b\<close> and the command line, with the terminator in slot 3. The code writes
  the terminator into slot \<^verbatim>\<open>argc + 2\<close>, which is slot 4 here, and slot 3 still holds the
  pointer to the second fragment that the parse stored there.
\<close>

theorem C2_counterexample:
  "exec_vector 0 (Mach_GetBootArgs [''root=/dev/sda1'', ''quiet''] (replicate 79 (CHR ''#'')))
       ''initpath''
     = Inr (Some [Some ''initpath'', Some ''-b'', Some ''root=/dev/sda1 quiet '', Some ''quiet''])
   \<and> exec_vector 0 (Mach_GetBootArgs [''root=/dev/sda1'', ''quiet''] (replicate 79 (CHR ''#'')))
       ''initpath''
     \<noteq> Inr (Some [Some ''initpath'', Some ''-b'', Some ''root=/dev/sda1 quiet''])"
proof -
  have c: "boundary_contract (''root=/dev/sda1'' # [''quiet'']) (replicate 79 (CHR ''#''))"
    by (simp add: boundary_contract_def layout_def NUL_def)
  show ?thesis
    using exec_vector_layout[OF c, of 0 "''initpath''"] by (simp add: SPACE_def)
qed

text \<open>
  Claim C2, amended: for a laid-out buffer of 1 to 7 fragments, slot 1 is the literal
  \<^verbatim>\<open>-b\<close>, slot 2 points to the reconstructed command line (every fragment followed by a
  space), slots 3 to \<^verbatim>\<open>argc + 1\<close> still hold the pointers to the second and later
  fragments, and the terminator is in slot \<^verbatim>\<open>argc + 2\<close>; the exec'ed program receives
  the path, \<^verbatim>\<open>-b\<close>, the command line and then the second and later fragments.
\<close>

theorem C2_argument_vector:
  assumes "boundary_contract (f # fs) rest" and "length (f # fs) \<le> 7"
  shows "Init_slots base (Mach_GetBootArgs (f # fs) rest)
           = Inr ([Indeterminate, Literal ''-b'', InBootCommand 0]
                  @ map InArgBuffer (tl (fragment_offsets 0 (f # fs)))
                  @ NIL # replicate (7 - length (f # fs)) Indeterminate)
         \<and> command_line base (Mach_GetBootArgs (f # fs) rest)
             = Inr (Some (concat (map (\<lambda>g. g @ [SPACE]) (f # fs))))
         \<and> exec_vector base (Mach_GetBootArgs (f # fs) rest) path
             = Inr (Some ([Some path, Some ''-b'', Some (concat (map (\<lambda>g. g @ [SPACE]) (f # fs)))]
                          @ map Some fs))"
  using Init_slots_layout[OF assms] command_line_layout[OF assms] exec_vector_layout[OF assms]
  by blast

theorem C2_argument_vector_witness:
  "boundary_contract [''root=/dev/sda1'', ''quiet''] (replicate 79 (CHR ''#''))
   \<and> length [''root=/dev/sda1'', ''quiet''] \<le> 7
   \<and> Init_slots 0 (Mach_GetBootArgs [''root=/dev/sda1'', ''quiet''] (replicate 79 (CHR ''#'')))
       = Inr [Indeterminate, Literal ''-b'', InBootCommand 0, InArgBuffer 15, NIL,
              Indeterminate, Indeterminate, Indeterminate, Indeterminate, Indeterminate]
   \<and> exec_vector 0 (Mach_GetBootArgs [''root=/dev/sda1'', ''quiet''] (replicate 79 (CHR ''#'')))
        ''initpath''
       = Inr (Some [Some ''initpath'', Some ''-b'', Some ''root=/dev/sda1 quiet '', Some ''quiet''])"
proof -
  have c: "boundary_contract (''root=/dev/sda1'' # [''quiet'']) (replicate 79 (CHR ''#''))"
    by (simp add: boundary_contract_def layout_def NUL_def)
  have m: "length (''root=/dev/sda1'' # [''quiet'']) \<le> 7" by simp
  show ?thesis
    using C2_argument_vector[OF c m, of 0 "''initpath''"] c
    by (simp add: SPACE_def eval_nat_numeral)
qed

text \<open>
  Claim C3: with at least one fragment the computed \<^verbatim>\<open>argLength\<close> is the offset of the
  last fragment in the buffer plus its length plus one for its terminating NUL,
  whatever the base address of the buffer is (for a laid-out buffer, the length of the
  layout); with no fragment the length is 0, \<^verbatim>\<open>bootCommand\<close> stays cleared, slot 1 is
  the terminator and the exec'ed program receives the path alone.
\<close>

theorem C3_argLength:
  "(0 < ba_argc ba \<and> ba_argc ba \<le> 8 \<and> length (ba_argv ba) = nat (ba_argc ba)
      \<and> length (ba_buffer ba) = 100 \<and> NUL \<in> set (drop (last (ba_argv ba)) (ba_buffer ba))
     \<longrightarrow> compute_argLength base (frame_after_parse ba) (ba_argc ba)
           = Inr (int (last (ba_argv ba))
                  + int (length (takeWhile (\<lambda>c. c \<noteq> NUL) (drop (last (ba_argv ba)) (ba_buffer ba))))
                  + 1))
   \<and> (boundary_contract frags rest \<and> frags \<noteq> []
     \<longrightarrow> compute_argLength base (frame_after_parse (Mach_GetBootArgs frags rest))
             (ba_argc (Mach_GetBootArgs frags rest)) = Inr (int (length (layout frags))))
   \<and> (ba_argc ba = 0
     \<longrightarrow> compute_argLength base (frame_after_parse ba) (ba_argc ba) = Inr 0
         \<and> (\<exists>fr. Init_args base ba = Inr fr \<and> bootCommand fr = replicate 103 NUL
                  \<and> initArgs fr ! 1 = NIL)
         \<and> command_line base ba = Inr (Some [])
         \<and> exec_vector base ba path = Inr (Some [Some path]))"
proof (intro conjI impI)
  assume a: "0 < ba_argc ba \<and> ba_argc ba \<le> 8 \<and> length (ba_argv ba) = nat (ba_argc ba)
      \<and> length (ba_buffer ba) = 100 \<and> NUL \<in> set (drop (last (ba_argv ba)) (ba_buffer ba))"
  then show "compute_argLength base (frame_after_parse ba) (ba_argc ba)
           = Inr (int (last (ba_argv ba))
                  + int (length (takeWhile (\<lambda>c. c \<noteq> NUL) (drop (last (ba_argv ba)) (ba_buffer ba))))
                  + 1)"
    by (intro compute_argLength_eq) simp_all
next
  assume "boundary_contract frags rest \<and> frags \<noteq> []"
  then show "compute_argLength base (frame_after_parse (Mach_GetBootArgs frags rest))
             (ba_argc (Mach_GetBootArgs frags rest)) = Inr (int (length (layout frags)))"
    by (intro compute_argLength_layout) simp_all
next
  assume z: "ba_argc ba = 0"
  then have le: "ba_argc ba \<le> 0" by simp
  show "compute_argLength base (frame_after_parse ba) (ba_argc ba) = Inr 0"
    using le by (rule compute_argLength_zero)
  show "\<exists>fr. Init_args base ba = Inr fr \<and> bootCommand fr = replicate 103 NUL \<and> initArgs fr ! 1 = NIL"
    unfolding Init_args_no_fragments[OF le] by (simp add: frame_after_parse_def)
  show "command_line base ba = Inr (Some [])"
    unfolding command_line_def Init_args_no_fragments[OF le]
    by (simp add: frame_after_parse_def cstring_def)
  show "exec_vector base ba path = Inr (Some [Some path])"
    using le by (rule exec_vector_no_fragments)
qed

theorem C3_argLength_witness:
  "compute_argLength 0
      (frame_after_parse \<lparr>ba_argc = 2, ba_argv = [0, 3], ba_buffer = ''ab'' @ [NUL] @ ''c'' @ [NUL] @ replicate 95 (CHR ''#'')\<rparr>) 2
     = Inr 5
   \<and> boundary_contract [''ab'', ''c''] (replicate 95 (CHR ''#'')) \<and> [''ab'', ''c''] \<noteq> []
   \<and> compute_argLength 0 (frame_after_parse (Mach_GetBootArgs [''ab'', ''c''] (replicate 95 (CHR ''#''))))
       (ba_argc (Mach_GetBootArgs [''ab'', ''c''] (replicate 95 (CHR ''#'')))) = Inr 5
   \<and> ba_argc (Mach_GetBootArgs [] (replicate 100 (CHR ''#''))) = 0
   \<and> exec_vector 0 (Mach_GetBootArgs [] (replicate 100 (CHR ''#''))) ''initpath''
       = Inr (Some [Some ''initpath''])"
proof -
  have c: "boundary_contract [''ab'', ''c''] (replicate 95 (CHR ''#''))"
    by (simp add: boundary_contract_def layout_def NUL_def)
  have z: "ba_argc (Mach_GetBootArgs [] (replicate 100 (CHR ''#''))) = 0"
    by (simp add: Mach_GetBootArgs_def)
  have 1: "compute_argLength 0
      (frame_after_parse \<lparr>ba_argc = 2, ba_argv = [0, 3], ba_buffer = ''ab'' @ [NUL] @ ''c'' @ [NUL] @ replicate 95 (CHR ''#'')\<rparr>) 2
     = Inr 5"
    using C3_argLength[of "\<lparr>ba_argc = 2, ba_argv = [0, 3], ba_buffer = ''ab'' @ [NUL] @ ''c'' @ [NUL] @ replicate 95 (CHR ''#'')\<rparr>" 0 "[]" "[]" "[]"]
    by (simp add: NUL_def)
  have 2: "compute_argLength 0 (frame_after_parse (Mach_GetBootArgs [''ab'', ''c''] (replicate 95 (CHR ''#''))))
       (ba_argc (Mach_GetBootArgs [''ab'', ''c''] (replicate 95 (CHR ''#'')))) = Inr 5"
    using C3_argLength[of "Mach_GetBootArgs [] []" 0 "[''ab'', ''c'']" "replicate 95 (CHR ''#'')" "[]"] c
    by (simp add: layout_def)
  have 3: "exec_vector 0 (Mach_GetBootArgs [] (replicate 100 (CHR ''#''))) ''initpath''
       = Inr (Some [Some ''initpath''])"
    using C3_argLength[of "Mach_GetBootArgs [] (replicate 100 (CHR ''#''))" 0 "[]" "[]" "''initpath''"] z
    by simp
  show ?thesis using 1 2 3 c z by simp
qed

text \<open>
  Claim C9, at a buffer of eight one-byte fragments: the store of the terminator goes to
  \<^verbatim>\<open>initArgs[argc + 2]\<close>, that is \<^verbatim>\<open>initArgs[10]\<close>, outside the ten slots of the array.
\<close>

theorem C9_eight_fragments:
  "Init_args 0 (Mach_GetBootArgs [''a'', ''b'', ''c'', ''d'', ''e'', ''f'', ''g'', ''h'']
                  (replicate 84 (CHR ''#'')))
     = Inl (InitArgsOutOfBounds 10)"
proof -
  have c: "boundary_contract [''a'', ''b'', ''c'', ''d'', ''e'', ''f'', ''g'', ''h'']
             (replicate 84 (CHR ''#''))"
    by (simp add: boundary_contract_def layout_def NUL_def)
  show ?thesis by (rule Init_args_eight[OF c]) simp
qed

text \<open>
  Claim C10: for every buffer that obeys the boundary contract the computed length is
  between 0 and 100; when it is positive the reconstruction ends without leaving
  \<^verbatim>\<open>argBuffer\<close> or the 103 bytes of \<^verbatim>\<open>bootCommand\<close>, the byte at the computed length
  is NUL and no byte before it is, so the command line is the C string of that length.
\<close>

theorem C10_reconstruction_in_bounds:
  assumes "boundary_contract frags rest"
  shows "\<exists>n. compute_argLength base (frame_after_parse (Mach_GetBootArgs frags rest))
                (ba_argc (Mach_GetBootArgs frags rest)) = Inr n
             \<and> 0 \<le> n \<and> n \<le> 100
             \<and> (0 < n \<longrightarrow>
                  (\<exists>cmd. reconstruct (argBuffer (frame_after_parse (Mach_GetBootArgs frags rest)))
                            (bootCommand (frame_after_parse (Mach_GetBootArgs frags rest))) n = Inr cmd
                         \<and> length cmd = 103 \<and> cmd ! nat n = NUL
                         \<and> cstring cmd 0 = Some (take (nat n) cmd)))"
proof (cases frags)
  case Nil
  then show ?thesis
    by (simp add: compute_argLength_zero Mach_GetBootArgs_def)
next
  case (Cons f fs)
  then have ne: "frags \<noteq> []" by simp
  define n where "n = length (layout frags)"
  define cmd where "cmd = map nul_to_space (layout frags) @ replicate (103 - n) NUL"
  have n: "n \<le> 100" "n < 103" using contract_lengths(1)[OF assms] by (simp_all add: n_def)
  have 1: "compute_argLength base (frame_after_parse (Mach_GetBootArgs frags rest))
             (ba_argc (Mach_GetBootArgs frags rest)) = Inr (int n)"
    unfolding n_def by (rule compute_argLength_layout[OF assms ne])
  have 2: "reconstruct (argBuffer (frame_after_parse (Mach_GetBootArgs frags rest)))
             (bootCommand (frame_after_parse (Mach_GetBootArgs frags rest))) (int n) = Inr cmd"
    using reconstruct_layout[OF assms ne]
    by (simp add: frame_after_parse_def Mach_GetBootArgs_def cmd_def n_def)
  have 3: "length cmd = 103" using n by (simp add: cmd_def n_def)
  have 4: "cmd ! n = NUL"
    using n nth_append_length_plus[of "map nul_to_space (layout frags)" "replicate (103 - n) NUL" 0]
    by (simp add: cmd_def n_def)
  have 5: "cstring cmd 0 = Some (take n cmd)"
    unfolding cmd_def using cstring_command[OF n(2), of "layout frags"] by (simp add: n_def)
  show ?thesis
    using 1 2 3 4 5 n by (intro exI[of _ "int n"]) simp
qed

theorem C10_reconstruction_in_bounds_witness:
  "boundary_contract [''root=/dev/sda1'', ''quiet''] (replicate 79 (CHR ''#''))
   \<and> compute_argLength 0
         (frame_after_parse (Mach_GetBootArgs [''root=/dev/sda1'', ''quiet''] (replicate 79 (CHR ''#''))))
         (ba_argc (Mach_GetBootArgs [''root=/dev/sda1'', ''quiet''] (replicate 79 (CHR ''#'')))) = Inr 21
   \<and> (21 :: int) \<le> 100"
proof -
  have c: "boundary_contract [''root=/dev/sda1'', ''quiet''] (replicate 79 (CHR ''#''))"
    by (simp add: boundary_contract_def layout_def NUL_def)
  obtain n where n: "compute_argLength 0
         (frame_after_parse (Mach_GetBootArgs [''root=/dev/sda1'', ''quiet''] (replicate 79 (CHR ''#''))))
         (ba_argc (Mach_GetBootArgs [''root=/dev/sda1'', ''quiet''] (replicate 79 (CHR ''#'')))) = Inr n"
      "n \<le> 100"
    using C10_reconstruction_in_bounds[OF c, of 0] by blast
  have "compute_argLength 0
         (frame_after_parse (Mach_GetBootArgs [''root=/dev/sda1'', ''quiet''] (replicate 79 (CHR ''#''))))
         (ba_argc (Mach_GetBootArgs [''root=/dev/sda1'', ''quiet''] (replicate 79 (CHR ''#'')))) = Inr 21"
    using compute_argLength_layout[OF c, of 0] by (simp add: layout_def)
  with n c show ?thesis by simp
qed

section \<open>Properties of the two call sequences\<close>

subsection \<open>The calls of \<^verbatim>\<open>main\<close>\<close>

lemma stmt_eq: "stmt env c s = s\<lparr>trace := trace s @ [c]\<rparr>"
  by (simp add: stmt_def call_def)

lemma block_Nil: "block [] s = s"
  by (simp add: block_def)

lemma block_Cons: "block (f # fs) s = block fs (f s)"
  by (simp add: block_def)

lemma rpc_server_loop_trace:
  "trace (rpc_server_loop env n s) = trace s @ replicate (nat (n - loop_i s)) Rpc_CreateServer"
proof (induction "nat (n - loop_i s)" arbitrary: s)
  case 0
  then have "\<not> loop_i s < n" by simp
  then show ?case by (subst rpc_server_loop.simps) simp
next
  case (Suc d)
  then have lt: "loop_i s < n" by linarith
  define s' where "s' = (stmt env Rpc_CreateServer s)\<lparr>loop_i := loop_i s + 1\<rparr>"
  have d: "d = nat (n - loop_i s')" using Suc.hyps(2) by (simp add: s'_def)
  have tr: "trace s' = trace s @ [Rpc_CreateServer]" by (simp add: s'_def stmt_eq)
  have "rpc_server_loop env n s = rpc_server_loop env n s'"
    using lt by (subst rpc_server_loop.simps) (simp add: s'_def)
  also have "trace \<dots> = trace s' @ replicate d Rpc_CreateServer"
    using Suc.hyps(1)[OF d] d by simp
  finally show ?case
    using Suc.hyps(2) by (simp add: tr replicate_append_same flip: replicate_Suc)
qed

lemma create_rpc_servers_trace:
  "trace (create_rpc_servers env cfg s)
     = trace s @ replicate (nat (main_NumRpcServers cfg)) Rpc_CreateServer"
  by (simp add: create_rpc_servers_def rpc_server_loop_trace)

lemma init_modules_trace:
  "trace (init_modules env s) = trace s @
      [Main_InitVars, Mach_Init, Sync_Init, Dbg_Init,
       Mach_MonPrintf ''Sprite kernel for %s Built on %s at %s\<newline>''
                   [Expr ''machTarget'', Expr ''__DATE__'', Expr ''__TIME__''],
       Sys_Init, Vm_BootInit, Dev_Init, Dump_Init, Proc_Init, Sync_LockStatInit,
       Timer_Init, Sig_Init, Sched_Init, SpriteVersion,
       printf ''Sprite kernel: %s\<newline>'' [Expr ''SpriteVersion()''],
       Fs_Bin, Net_Bin, Vm_Init, Proc_InitMainProc, Net_Init, Net_RouteInit,
       Proc_ServerInit, Recov_Init, Rpc_Init, Dev_Config, Prof_Init,
       Mach_MonStartNmi, ENABLE_INTR, Fsrecov_InitState, Fsrecov_DirOpInit,
       Sched_TimeTicks, Prof_Start, Rpc_Start, Fs_Init, Fs_ProcInit]"
  by (simp add: init_modules_def block_Nil block_Cons stmt_eq)

lemma spawn_daemons_trace:
  "trace (spawn_daemons env cfg s) = trace s @
      [Proc_CallFunc Vm_Clock, Proc_CallFunc Vm_OpenSwapDirectory, Proc_CallFunc Fsutil_SyncProc]
      @ replicate (nat (main_NumRpcServers cfg)) Rpc_CreateServer
      @ [Proc_NewProc Rpc_Daemon ''Rpc_Daemon'',
         Proc_ServerProcCreate (sint (FSCACHE_MAX_CLEANER_PROCS cfg + VM_MAX_PAGE_OUT_PROCS cfg)),
         Proc_NewProc Recov_Proc ''Recov_Proc'', Proc_MigInit]"
  by (simp add: spawn_daemons_def block_Nil block_Cons stmt_eq create_rpc_servers_trace)

lemma finish_main_trace:
  "trace (finish_main env s) = trace s @
      [Main_HookRoutine,
       printf ''MEMORY %d bytes allocated for kernel\<newline>'' [Expr ''vmMemEnd - mach_KernStart''],
       Proc_NewProc Init ''Init'', Sync_WaitTime ''time_OneYear'',
       Mach_MonPrintf ''Leaving main()\<newline>'' [], Proc_Exit 0]"
  by (simp add: finish_main_def block_Nil block_Cons stmt_eq)

lemma boot_trace_eq:
  "boot_trace env cfg =
      [Main_InitVars, Mach_Init, Sync_Init, Dbg_Init,
       Mach_MonPrintf ''Sprite kernel for %s Built on %s at %s\<newline>''
                   [Expr ''machTarget'', Expr ''__DATE__'', Expr ''__TIME__''],
       Sys_Init, Vm_BootInit, Dev_Init, Dump_Init, Proc_Init, Sync_LockStatInit,
       Timer_Init, Sig_Init, Sched_Init, SpriteVersion,
       printf ''Sprite kernel: %s\<newline>'' [Expr ''SpriteVersion()''],
       Fs_Bin, Net_Bin, Vm_Init, Proc_InitMainProc, Net_Init, Net_RouteInit,
       Proc_ServerInit, Recov_Init, Rpc_Init, Dev_Config, Prof_Init,
       Mach_MonStartNmi, ENABLE_INTR, Fsrecov_InitState, Fsrecov_DirOpInit,
       Sched_TimeTicks, Prof_Start, Rpc_Start, Fs_Init, Fs_ProcInit,
       Proc_CallFunc Vm_Clock, Proc_CallFunc Vm_OpenSwapDirectory, Proc_CallFunc Fsutil_SyncProc]
      @ replicate (nat (main_NumRpcServers cfg)) Rpc_CreateServer
      @ [Proc_NewProc Rpc_Daemon ''Rpc_Daemon'',
         Proc_ServerProcCreate (sint (FSCACHE_MAX_CLEANER_PROCS cfg + VM_MAX_PAGE_OUT_PROCS cfg)),
         Proc_NewProc Recov_Proc ''Recov_Proc'', Proc_MigInit,
         Main_HookRoutine,
         printf ''MEMORY %d bytes allocated for kernel\<newline>'' [Expr ''vmMemEnd - mach_KernStart''],
         Proc_NewProc Init ''Init'', Sync_WaitTime ''time_OneYear'',
         Mach_MonPrintf ''Leaving main()\<newline>'' [], Proc_Exit 0]"
  by (simp add: boot_trace_def main_def block_Nil block_Cons boot_state_def
        init_modules_trace spawn_daemons_trace finish_main_trace)

lemma exit_status_main: "exit_status (boot_trace env cfg) = Some 0"
  by (simp add: boot_trace_eq exit_status_def)

lemma Proc_Init_before_creation:
  "c \<in> set (boot_trace env cfg) \<Longrightarrow> creates_process c \<Longrightarrow> precedes Proc_Init c (boot_trace env cfg)"
  by (cases c) (auto simp add: boot_trace_eq precedes_def dropWhile_append)

lemma count_list_replicate_same: "count_list (replicate n x) x = n"
  by (induction n) auto

lemma sint_add_in_range:
  assumes "- (2 ^ 31) \<le> sint a + sint b" and "sint a + sint b < 2 ^ 31"
  shows "sint (a + b :: 32 word) = sint a + sint b"
proof -
  have "sint (a + b) = signed_take_bit 31 (sint a + sint b)"
    by (simp add: sint_word_ariths)
  also have "\<dots> = sint a + sint b"
    using assms by (intro signed_take_bit_int_eq_self) simp_all
  finally show ?thesis .
qed

lemma sint_add_wraps: "sint (2147483647 + 1 :: 32 word) = - 2147483648"
  by simp

subsection \<open>The calls of \<^verbatim>\<open>Init\<close>\<close>

lemma canonical_init_calls:
  "calls (canonical_init env cfg fr t0) =
     t0 @ Fs_Open (INIT cfg) [FS_EXECUTE, FS_FOLLOW]
        # (if returns env t0 (Fs_Open (INIT cfg) [FS_EXECUTE, FS_FOLLOW]) \<noteq> SUCCESS
           then [printf ''Can't open %s <0x%x>\<newline>''
                   [S (INIT cfg), X (returns env t0 (Fs_Open (INIT cfg) [FS_EXECUTE, FS_FOLLOW]))]]
           else [])
        @ Proc_KernExec (INIT cfg) (arg_vector (fr\<lparr>initArgs := (initArgs fr)[0 := Literal (INIT cfg)]\<rparr>))
        # (case exec_returns env (INIT cfg)
                  (arg_vector (fr\<lparr>initArgs := (initArgs fr)[0 := Literal (INIT cfg)]\<rparr>)) of
             None \<Rightarrow> []
           | Some st \<Rightarrow> [printf ''Init: Could not exec %s status %x.\<newline>'' [S (INIT cfg), X st],
                         Proc_Exit 1])"
  by (simp add: canonical_init_def Let_def split: option.split)

lemma canonical_init_ending:
  "ending (canonical_init env cfg fr t0) =
     (case exec_returns env (INIT cfg)
             (arg_vector (fr\<lparr>initArgs := (initArgs fr)[0 := Literal (INIT cfg)]\<rparr>)) of
        None \<Rightarrow> Replaced (INIT cfg)
      | Some st \<Rightarrow> Exited 1)"
  by (simp add: canonical_init_def Let_def split: option.split)

lemma launch_no_alt:
  "main_AltInit cfg = None \<Longrightarrow> launch env cfg fr = canonical_init env cfg fr []"
  by (simp add: launch_def)

lemma launch_alt_fails:
  \<open>main_AltInit cfg = Some alt \<Longrightarrow>
   exec_returns env alt (arg_vector (fr\<lparr>initArgs := (initArgs fr)[0 := Literal alt]\<rparr>)) = Some s1 \<Longrightarrow>
   launch env cfg fr =
     canonical_init env cfg (fr\<lparr>initArgs := (initArgs fr)[0 := Literal alt]\<rparr>)
       [printf ''Execing "%s"\<newline>'' [S alt],
        Proc_KernExec alt (arg_vector (fr\<lparr>initArgs := (initArgs fr)[0 := Literal alt]\<rparr>)),
        printf ''Init: Could not exec %s status %x.\<newline>'' [S alt, X s1]]\<close>
  by (simp add: launch_def Let_def)

lemma exec_vector_Inr:
  "exec_vector base ba path = Inr v \<Longrightarrow>
   \<exists>fr. Init_args base ba = Inr fr
        \<and> v = arg_vector (fr\<lparr>initArgs := (initArgs fr)[0 := Literal path]\<rparr>)"
  by (auto simp: exec_vector_def split: sum.splits)

lemma Init_calls_no_alt:
  assumes "main_AltInit cfg = None" and "exec_vector base ba (INIT cfg) = Inr v2"
  shows "Init_calls base env cfg ba =
     Inr (Fs_Open (INIT cfg) [FS_EXECUTE, FS_FOLLOW]
        # (if returns env [] (Fs_Open (INIT cfg) [FS_EXECUTE, FS_FOLLOW]) \<noteq> SUCCESS
           then [printf ''Can't open %s <0x%x>\<newline>''
                   [S (INIT cfg), X (returns env [] (Fs_Open (INIT cfg) [FS_EXECUTE, FS_FOLLOW]))]]
           else [])
        @ Proc_KernExec (INIT cfg) v2
        # (case exec_returns env (INIT cfg) v2 of
             None \<Rightarrow> []
           | Some st \<Rightarrow> [printf ''Init: Could not exec %s status %x.\<newline>'' [S (INIT cfg), X st],
                         Proc_Exit 1]))"
proof -
  obtain fr where fr: "Init_args base ba = Inr fr"
      "v2 = arg_vector (fr\<lparr>initArgs := (initArgs fr)[0 := Literal (INIT cfg)]\<rparr>)"
    using exec_vector_Inr[OF assms(2)] by blast
  show ?thesis
    unfolding Init_calls_def Init_proc_def fr(1) fr(2)
    by (simp add: launch_no_alt[OF assms(1)] canonical_init_calls)
qed

lemma Init_calls_alt_fails:
  assumes "main_AltInit cfg = Some alt"
      and "exec_vector base ba alt = Inr v1" and "exec_returns env alt v1 = Some s1"
      and "exec_vector base ba (INIT cfg) = Inr v2"
  shows \<open>Init_calls base env cfg ba =
     Inr ([printf ''Execing "%s"\<newline>'' [S alt], Proc_KernExec alt v1,
           printf ''Init: Could not exec %s status %x.\<newline>'' [S alt, X s1]]
        @ Fs_Open (INIT cfg) [FS_EXECUTE, FS_FOLLOW]
        # (if returns env [printf ''Execing "%s"\<newline>'' [S alt], Proc_KernExec alt v1,
                           printf ''Init: Could not exec %s status %x.\<newline>'' [S alt, X s1]]
                (Fs_Open (INIT cfg) [FS_EXECUTE, FS_FOLLOW]) \<noteq> SUCCESS
           then [printf ''Can't open %s <0x%x>\<newline>''
                   [S (INIT cfg),
                    X (returns env [printf ''Execing "%s"\<newline>'' [S alt], Proc_KernExec alt v1,
                           printf ''Init: Could not exec %s status %x.\<newline>'' [S alt, X s1]]
                         (Fs_Open (INIT cfg) [FS_EXECUTE, FS_FOLLOW]))]]
           else [])
        @ Proc_KernExec (INIT cfg) v2
        # (case exec_returns env (INIT cfg) v2 of
             None \<Rightarrow> []
           | Some st \<Rightarrow> [printf ''Init: Could not exec %s status %x.\<newline>'' [S (INIT cfg), X st],
                         Proc_Exit 1]))\<close>
proof -
  obtain fr where fr: "Init_args base ba = Inr fr"
      "v2 = arg_vector (fr\<lparr>initArgs := (initArgs fr)[0 := Literal (INIT cfg)]\<rparr>)"
    using exec_vector_Inr[OF assms(4)] by blast
  have v1: "v1 = arg_vector (fr\<lparr>initArgs := (initArgs fr)[0 := Literal alt]\<rparr>)"
    using exec_vector_Inr[OF assms(2)] fr(1) by auto
  have l: "launch env cfg fr =
     canonical_init env cfg (fr\<lparr>initArgs := (initArgs fr)[0 := Literal alt]\<rparr>)
       [printf ''Execing \"%s\"\<newline>'' [S alt], Proc_KernExec alt v1,
        printf ''Init: Could not exec %s status %x.\<newline>'' [S alt, X s1]]"
    using launch_alt_fails[OF assms(1), of env fr s1] assms(3) unfolding v1 by simp
  show ?thesis
    unfolding Init_calls_def Init_proc_def fr(1) fr(2)
    by (simp add: l canonical_init_calls)
qed

lemma Init_ending_eq:
  assumes "main_AltInit cfg = None
           \<or> (main_AltInit cfg = Some alt \<and> exec_vector base ba alt = Inr v1
              \<and> exec_returns env alt v1 = Some s1)"
      and "exec_vector base ba (INIT cfg) = Inr v2"
  shows "Init_ending base env cfg ba =
           Inr (case exec_returns env (INIT cfg) v2 of None \<Rightarrow> Replaced (INIT cfg) | Some st \<Rightarrow> Exited 1)"
proof -
  obtain fr where fr: "Init_args base ba = Inr fr"
      "v2 = arg_vector (fr\<lparr>initArgs := (initArgs fr)[0 := Literal (INIT cfg)]\<rparr>)"
    using exec_vector_Inr[OF assms(2)] by blast
  from assms(1) show ?thesis
  proof
    assume n: "main_AltInit cfg = None"
    show ?thesis
      unfolding Init_ending_def Init_proc_def fr(1) fr(2)
      by (simp add: launch_no_alt[OF n] canonical_init_ending)
  next
    assume a: "main_AltInit cfg = Some alt \<and> exec_vector base ba alt = Inr v1
              \<and> exec_returns env alt v1 = Some s1"
    then have v1: "v1 = arg_vector (fr\<lparr>initArgs := (initArgs fr)[0 := Literal alt]\<rparr>)"
      using exec_vector_Inr[of base ba alt v1] fr(1) by auto
    have l: "launch env cfg fr =
       canonical_init env cfg (fr\<lparr>initArgs := (initArgs fr)[0 := Literal alt]\<rparr>)
         [printf ''Execing \"%s\"\<newline>'' [S alt], Proc_KernExec alt v1,
          printf ''Init: Could not exec %s status %x.\<newline>'' [S alt, X s1]]"
      using launch_alt_fails[of cfg alt env fr s1] a unfolding v1 by simp
    show ?thesis
      unfolding Init_ending_def Init_proc_def fr(1) fr(2)
      by (simp add: l canonical_init_ending)
  qed
qed

section \<open>The claims about the boot sequence and the hand-off\<close>

text \<open>
  Claim C4, as stated, in an environment where every collaborator returns the
  non-success status 1: \<^verbatim>\<open>Vm_BootInit\<close> returns non-success, and \<^verbatim>\<open>Dev_Init\<close> is
  still called after it; the sequence runs to \<^verbatim>\<open>Proc_Exit(0)\<close>.
\<close>

theorem C4_counterexample:
  "returns (always 1)
      (calls_before Vm_BootInit
         (boot_trace (always 1)
            \<lparr>main_NumRpcServers = 2, FSCACHE_MAX_CLEANER_PROCS = 3, VM_MAX_PAGE_OUT_PROCS = 2\<rparr>))
      Vm_BootInit \<noteq> SUCCESS
   \<and> Dev_Init \<in> set (calls_after Vm_BootInit
         (boot_trace (always 1)
            \<lparr>main_NumRpcServers = 2, FSCACHE_MAX_CLEANER_PROCS = 3, VM_MAX_PAGE_OUT_PROCS = 2\<rparr>))
   \<and> exit_status (boot_trace (always 1)
            \<lparr>main_NumRpcServers = 2, FSCACHE_MAX_CLEANER_PROCS = 3, VM_MAX_PAGE_OUT_PROCS = 2\<rparr>)
       = Some 0"
  by (simp add: boot_trace_eq calls_after_def always_def SUCCESS_def exit_status_def)

text \<open>
  Claim C4, amended: \<^verbatim>\<open>main\<close> keeps no return status of a collaborator. Whatever the
  collaborators return, it makes the calls it makes when all of them succeed, in the
  same order, and ends with \<^verbatim>\<open>Proc_Exit(0)\<close>.
\<close>

theorem C4_statuses_discarded:
  "boot_trace env cfg = boot_trace (always SUCCESS) cfg
   \<and> exit_status (boot_trace env cfg) = Some 0"
proof (rule conjI)
  show "boot_trace env cfg = boot_trace (always SUCCESS) cfg"
    by (simp add: boot_trace_eq)
  show "exit_status (boot_trace env cfg) = Some 0"
    by (rule exit_status_main)
qed

text \<open>
  Claim C5: in every boot, \<^verbatim>\<open>Vm_BootInit\<close> precedes \<^verbatim>\<open>Dev_Init\<close>, \<^verbatim>\<open>Proc_Init\<close> precedes
  every call that creates a process, \<^verbatim>\<open>Sched_Init\<close> precedes \<^verbatim>\<open>Sched_TimeTicks\<close>,
  \<^verbatim>\<open>Vm_Init\<close> precedes \<^verbatim>\<open>Net_Init\<close> and \<^verbatim>\<open>Rpc_Init\<close> precedes \<^verbatim>\<open>Rpc_Start\<close>.
\<close>

theorem C5_ordering:
  "precedes Vm_BootInit Dev_Init (boot_trace env cfg)
   \<and> (\<forall>c \<in> set (boot_trace env cfg). creates_process c \<longrightarrow> precedes Proc_Init c (boot_trace env cfg))
   \<and> precedes Sched_Init Sched_TimeTicks (boot_trace env cfg)
   \<and> precedes Vm_Init Net_Init (boot_trace env cfg)
   \<and> precedes Rpc_Init Rpc_Start (boot_trace env cfg)"
proof (intro conjI ballI impI)
  show "precedes Vm_BootInit Dev_Init (boot_trace env cfg)"
    by (simp add: boot_trace_eq precedes_def)
  show "precedes Sched_Init Sched_TimeTicks (boot_trace env cfg)"
    by (simp add: boot_trace_eq precedes_def)
  show "precedes Vm_Init Net_Init (boot_trace env cfg)"
    by (simp add: boot_trace_eq precedes_def)
  show "precedes Rpc_Init Rpc_Start (boot_trace env cfg)"
    by (simp add: boot_trace_eq precedes_def)
next
  fix c
  assume "c \<in> set (boot_trace env cfg)" and "creates_process c"
  then show "precedes Proc_Init c (boot_trace env cfg)"
    by (rule Proc_Init_before_creation)
qed

theorem C5_ordering_witness:
  "Rpc_CreateServer \<in> set (boot_trace (always 0)
        \<lparr>main_NumRpcServers = 2, FSCACHE_MAX_CLEANER_PROCS = 3, VM_MAX_PAGE_OUT_PROCS = 2\<rparr>)
   \<and> creates_process Rpc_CreateServer
   \<and> precedes Proc_Init Rpc_CreateServer (boot_trace (always 0)
        \<lparr>main_NumRpcServers = 2, FSCACHE_MAX_CLEANER_PROCS = 3, VM_MAX_PAGE_OUT_PROCS = 2\<rparr>)"
proof -
  have m: "Rpc_CreateServer \<in> set (boot_trace (always 0)
        \<lparr>main_NumRpcServers = 2, FSCACHE_MAX_CLEANER_PROCS = 3, VM_MAX_PAGE_OUT_PROCS = 2\<rparr>)"
    by (simp add: boot_trace_eq)
  have p: "creates_process Rpc_CreateServer" by simp
  from C5_ordering[of "always 0"
        "\<lparr>main_NumRpcServers = 2, FSCACHE_MAX_CLEANER_PROCS = 3, VM_MAX_PAGE_OUT_PROCS = 2\<rparr>"]
  have "\<forall>c \<in> set (boot_trace (always 0)
        \<lparr>main_NumRpcServers = 2, FSCACHE_MAX_CLEANER_PROCS = 3, VM_MAX_PAGE_OUT_PROCS = 2\<rparr>).
          creates_process c \<longrightarrow> precedes Proc_Init c (boot_trace (always 0)
        \<lparr>main_NumRpcServers = 2, FSCACHE_MAX_CLEANER_PROCS = 3, VM_MAX_PAGE_OUT_PROCS = 2\<rparr>)"
    by (rule conjunct1[OF conjunct2])
  then have "precedes Proc_Init Rpc_CreateServer (boot_trace (always 0)
        \<lparr>main_NumRpcServers = 2, FSCACHE_MAX_CLEANER_PROCS = 3, VM_MAX_PAGE_OUT_PROCS = 2\<rparr>)"
    using m p by blast
  with m p show ?thesis by (intro conjI)
qed

text \<open>
  Claim C6: \<^verbatim>\<open>main\<close> calls \<^verbatim>\<open>Rpc_CreateServer\<close> exactly \<^verbatim>\<open>main_NumRpcServers\<close> times (no
  time when that number is not positive), never after the one creation of
  \<^verbatim>\<open>Rpc_Daemon\<close>; it creates the worker processes with one call whose count is the
  \<^verbatim>\<open>int\<close> sum \<^verbatim>\<open>FSCACHE_MAX_CLEANER_PROCS + VM_MAX_PAGE_OUT_PROCS\<close> of line 162, which is
  the sum of the two numbers whenever that sum fits an \<^verbatim>\<open>int\<close> (5 for 3 and 2); and it
  creates \<^verbatim>\<open>Recov_Proc\<close> once with \<^verbatim>\<open>Proc_NewProc\<close> and never hands it to
  \<^verbatim>\<open>Proc_CallFunc\<close>.
\<close>

theorem C6_daemons:
  "count_list (boot_trace env cfg) Rpc_CreateServer = nat (main_NumRpcServers cfg)
   \<and> (0 \<le> main_NumRpcServers cfg
        \<longrightarrow> int (count_list (boot_trace env cfg) Rpc_CreateServer) = main_NumRpcServers cfg)
   \<and> filter (is_NewProc_of Rpc_Daemon) (boot_trace env cfg) = [Proc_NewProc Rpc_Daemon ''Rpc_Daemon'']
   \<and> Rpc_CreateServer \<notin> set (calls_after (Proc_NewProc Rpc_Daemon ''Rpc_Daemon'') (boot_trace env cfg))
   \<and> filter is_ServerProcCreate (boot_trace env cfg)
       = [Proc_ServerProcCreate (sint (FSCACHE_MAX_CLEANER_PROCS cfg + VM_MAX_PAGE_OUT_PROCS cfg))]
   \<and> (- (2 ^ 31) \<le> sint (FSCACHE_MAX_CLEANER_PROCS cfg) + sint (VM_MAX_PAGE_OUT_PROCS cfg)
        \<and> sint (FSCACHE_MAX_CLEANER_PROCS cfg) + sint (VM_MAX_PAGE_OUT_PROCS cfg) < 2 ^ 31
        \<longrightarrow> filter is_ServerProcCreate (boot_trace env cfg)
             = [Proc_ServerProcCreate
                  (sint (FSCACHE_MAX_CLEANER_PROCS cfg) + sint (VM_MAX_PAGE_OUT_PROCS cfg))])
   \<and> (FSCACHE_MAX_CLEANER_PROCS cfg = 3 \<and> VM_MAX_PAGE_OUT_PROCS cfg = 2
        \<longrightarrow> filter is_ServerProcCreate (boot_trace env cfg) = [Proc_ServerProcCreate 5])
   \<and> filter (is_NewProc_of Recov_Proc) (boot_trace env cfg) = [Proc_NewProc Recov_Proc ''Recov_Proc'']
   \<and> Proc_CallFunc Recov_Proc \<notin> set (boot_trace env cfg)"
proof -
  have 1: "count_list (boot_trace env cfg) Rpc_CreateServer = nat (main_NumRpcServers cfg)"
    by (simp add: boot_trace_eq count_list_replicate_same)
  have f: "filter P (replicate n Rpc_CreateServer) = []" if "\<not> P Rpc_CreateServer" for P n
    using that by (induction n) auto
  have 3: "filter (is_NewProc_of Rpc_Daemon) (boot_trace env cfg) = [Proc_NewProc Rpc_Daemon ''Rpc_Daemon'']"
    by (simp add: boot_trace_eq f)
  have 4: "Rpc_CreateServer \<notin> set (calls_after (Proc_NewProc Rpc_Daemon ''Rpc_Daemon'') (boot_trace env cfg))"
    by (simp add: boot_trace_eq calls_after_def dropWhile_append)
  have 5: "filter is_ServerProcCreate (boot_trace env cfg)
       = [Proc_ServerProcCreate (sint (FSCACHE_MAX_CLEANER_PROCS cfg + VM_MAX_PAGE_OUT_PROCS cfg))]"
    by (simp add: boot_trace_eq f)
  have 6: "filter is_ServerProcCreate (boot_trace env cfg)
             = [Proc_ServerProcCreate
                  (sint (FSCACHE_MAX_CLEANER_PROCS cfg) + sint (VM_MAX_PAGE_OUT_PROCS cfg))]"
    if "- (2 ^ 31) \<le> sint (FSCACHE_MAX_CLEANER_PROCS cfg) + sint (VM_MAX_PAGE_OUT_PROCS cfg)
        \<and> sint (FSCACHE_MAX_CLEANER_PROCS cfg) + sint (VM_MAX_PAGE_OUT_PROCS cfg) < 2 ^ 31"
    unfolding 5 using sint_add_in_range[of "FSCACHE_MAX_CLEANER_PROCS cfg" "VM_MAX_PAGE_OUT_PROCS cfg"] that
    by simp
  have 7: "filter is_ServerProcCreate (boot_trace env cfg) = [Proc_ServerProcCreate 5]"
    if "FSCACHE_MAX_CLEANER_PROCS cfg = 3 \<and> VM_MAX_PAGE_OUT_PROCS cfg = 2"
    unfolding 5 using that by simp
  have 8: "filter (is_NewProc_of Recov_Proc) (boot_trace env cfg) = [Proc_NewProc Recov_Proc ''Recov_Proc'']"
    by (simp add: boot_trace_eq f)
  have 9: "Proc_CallFunc Recov_Proc \<notin> set (boot_trace env cfg)"
    by (simp add: boot_trace_eq)
  show ?thesis
  proof (intro conjI impI)
    show "count_list (boot_trace env cfg) Rpc_CreateServer = nat (main_NumRpcServers cfg)"
      by (rule 1)
    show "int (count_list (boot_trace env cfg) Rpc_CreateServer) = main_NumRpcServers cfg"
      if "0 \<le> main_NumRpcServers cfg"
      using that by (simp add: 1)
    show "filter (is_NewProc_of Rpc_Daemon) (boot_trace env cfg) = [Proc_NewProc Rpc_Daemon ''Rpc_Daemon'']"
      by (rule 3)
    show "Rpc_CreateServer \<notin> set (calls_after (Proc_NewProc Rpc_Daemon ''Rpc_Daemon'') (boot_trace env cfg))"
      by (rule 4)
    show "filter is_ServerProcCreate (boot_trace env cfg)
       = [Proc_ServerProcCreate (sint (FSCACHE_MAX_CLEANER_PROCS cfg + VM_MAX_PAGE_OUT_PROCS cfg))]"
      by (rule 5)
    show "filter is_ServerProcCreate (boot_trace env cfg)
             = [Proc_ServerProcCreate
                  (sint (FSCACHE_MAX_CLEANER_PROCS cfg) + sint (VM_MAX_PAGE_OUT_PROCS cfg))]"
      if "- (2 ^ 31) \<le> sint (FSCACHE_MAX_CLEANER_PROCS cfg) + sint (VM_MAX_PAGE_OUT_PROCS cfg)
        \<and> sint (FSCACHE_MAX_CLEANER_PROCS cfg) + sint (VM_MAX_PAGE_OUT_PROCS cfg) < 2 ^ 31"
      using that by (rule 6)
    show "filter is_ServerProcCreate (boot_trace env cfg) = [Proc_ServerProcCreate 5]"
      if "FSCACHE_MAX_CLEANER_PROCS cfg = 3 \<and> VM_MAX_PAGE_OUT_PROCS cfg = 2"
      using that by (rule 7)
    show "filter (is_NewProc_of Recov_Proc) (boot_trace env cfg) = [Proc_NewProc Recov_Proc ''Recov_Proc'']"
      by (rule 8)
    show "Proc_CallFunc Recov_Proc \<notin> set (boot_trace env cfg)"
      by (rule 9)
  qed
qed

theorem C6_daemons_witness:
  "(0 :: int) \<le> main_NumRpcServers
        \<lparr>main_NumRpcServers = 2, FSCACHE_MAX_CLEANER_PROCS = 3, VM_MAX_PAGE_OUT_PROCS = 2\<rparr>
   \<and> - (2 ^ 31) \<le> sint (3 :: 32 word) + sint (2 :: 32 word)
   \<and> sint (3 :: 32 word) + sint (2 :: 32 word) < 2 ^ 31
   \<and> count_list (boot_trace (always 0)
        \<lparr>main_NumRpcServers = 2, FSCACHE_MAX_CLEANER_PROCS = 3, VM_MAX_PAGE_OUT_PROCS = 2\<rparr>)
        Rpc_CreateServer = 2
   \<and> filter is_ServerProcCreate (boot_trace (always 0)
        \<lparr>main_NumRpcServers = 2, FSCACHE_MAX_CLEANER_PROCS = 3, VM_MAX_PAGE_OUT_PROCS = 2\<rparr>)
       = [Proc_ServerProcCreate 5]
   \<and> filter is_ServerProcCreate (boot_trace (always 0)
        \<lparr>main_NumRpcServers = 2, FSCACHE_MAX_CLEANER_PROCS = 2147483647,
          VM_MAX_PAGE_OUT_PROCS = 1\<rparr>)
       = [Proc_ServerProcCreate (- 2147483648)]"
proof -
  have a: "count_list (boot_trace (always 0)
        \<lparr>main_NumRpcServers = 2, FSCACHE_MAX_CLEANER_PROCS = 3, VM_MAX_PAGE_OUT_PROCS = 2\<rparr>)
        Rpc_CreateServer = 2
     \<and> filter is_ServerProcCreate (boot_trace (always 0)
        \<lparr>main_NumRpcServers = 2, FSCACHE_MAX_CLEANER_PROCS = 3, VM_MAX_PAGE_OUT_PROCS = 2\<rparr>)
       = [Proc_ServerProcCreate 5]"
    using C6_daemons[of "always 0"
        "\<lparr>main_NumRpcServers = 2, FSCACHE_MAX_CLEANER_PROCS = 3, VM_MAX_PAGE_OUT_PROCS = 2\<rparr>"]
    by simp
  have b: "filter is_ServerProcCreate (boot_trace (always 0)
        \<lparr>main_NumRpcServers = 2, FSCACHE_MAX_CLEANER_PROCS = 2147483647,
          VM_MAX_PAGE_OUT_PROCS = 1\<rparr>)
       = [Proc_ServerProcCreate (- 2147483648)]"
    using C6_daemons[of "always 0"
        "\<lparr>main_NumRpcServers = 2, FSCACHE_MAX_CLEANER_PROCS = 2147483647,
           VM_MAX_PAGE_OUT_PROCS = 1\<rparr>"] sint_add_wraps
    by simp
  show ?thesis using a b by simp
qed

text \<open>
  Claim C7: when an alternate init is configured and both \<^verbatim>\<open>Proc_KernExec\<close> calls come
  back, \<^verbatim>\<open>Init\<close> ends with \<^verbatim>\<open>Proc_Exit(1)\<close>, and the two attempts and their failure
  messages appear in the order alternate, canonical; \<^verbatim>\<open>main\<close> exits with status 0,
  which differs from 1.
\<close>

theorem C7_init_exhaustion:
  assumes "main_AltInit cfg = Some alt"
      and "exec_vector base ba alt = Inr v1" and "exec_returns env alt v1 = Some s1"
      and "exec_vector base ba (INIT cfg) = Inr v2" and "exec_returns env (INIT cfg) v2 = Some s2"
  shows "Init_ending base env cfg ba = Inr (Exited 1)
         \<and> (\<exists>t. Init_calls base env cfg ba = Inr t
                \<and> exit_status t = Some 1
                \<and> filter attempt_or_failure t
                    = [Proc_KernExec alt v1,
                       printf ''Init: Could not exec %s status %x.\<newline>'' [S alt, X s1],
                       Proc_KernExec (INIT cfg) v2,
                       printf ''Init: Could not exec %s status %x.\<newline>'' [S (INIT cfg), X s2]])
         \<and> exit_status (boot_trace menv mcfg) = Some 0
         \<and> (1 :: int) \<noteq> 0"
proof -
  have e: "Init_ending base env cfg ba = Inr (Exited 1)"
    using Init_ending_eq[of cfg alt base ba v1 env s1 v2] assms by simp
  have c: "\<exists>t. Init_calls base env cfg ba = Inr t
                \<and> exit_status t = Some 1
                \<and> filter attempt_or_failure t
                    = [Proc_KernExec alt v1,
                       printf ''Init: Could not exec %s status %x.\<newline>'' [S alt, X s1],
                       Proc_KernExec (INIT cfg) v2,
                       printf ''Init: Could not exec %s status %x.\<newline>'' [S (INIT cfg), X s2]]"
    unfolding Init_calls_alt_fails[OF assms(1-4)] assms(5)
    by (simp add: exit_status_def)
  show ?thesis using e c exit_status_main[of menv mcfg] by simp
qed

theorem C7_init_exhaustion_witness:
  "main_AltInit \<lparr>main_AltInit = Some ''altinit'', INIT = ''initpath''\<rparr> = Some ''altinit''
   \<and> exec_vector 0 (Mach_GetBootArgs [''root=/dev/sda1'', ''quiet''] (replicate 79 (CHR ''#'')))
        ''altinit''
       = Inr (Some [Some ''altinit'', Some ''-b'', Some ''root=/dev/sda1 quiet '', Some ''quiet''])
   \<and> exec_returns (always 5) ''altinit''
        (Some [Some ''altinit'', Some ''-b'', Some ''root=/dev/sda1 quiet '', Some ''quiet'']) = Some 5
   \<and> exec_vector 0 (Mach_GetBootArgs [''root=/dev/sda1'', ''quiet''] (replicate 79 (CHR ''#'')))
        ''initpath''
       = Inr (Some [Some ''initpath'', Some ''-b'', Some ''root=/dev/sda1 quiet '', Some ''quiet''])
   \<and> exec_returns (always 5) ''initpath''
        (Some [Some ''initpath'', Some ''-b'', Some ''root=/dev/sda1 quiet '', Some ''quiet'']) = Some 5
   \<and> Init_ending 0 (always 5) \<lparr>main_AltInit = Some ''altinit'', INIT = ''initpath''\<rparr>
        (Mach_GetBootArgs [''root=/dev/sda1'', ''quiet''] (replicate 79 (CHR ''#'')))
       = Inr (Exited 1)"
proof -
  have c: "boundary_contract (''root=/dev/sda1'' # [''quiet'']) (replicate 79 (CHR ''#''))"
    by (simp add: boundary_contract_def layout_def NUL_def)
  have a: "main_AltInit \<lparr>main_AltInit = Some ''altinit'', INIT = ''initpath''\<rparr> = Some ''altinit''"
    by simp
  have v1: "exec_vector 0 (Mach_GetBootArgs [''root=/dev/sda1'', ''quiet''] (replicate 79 (CHR ''#'')))
        ''altinit''
       = Inr (Some [Some ''altinit'', Some ''-b'', Some ''root=/dev/sda1 quiet '', Some ''quiet''])"
    using exec_vector_layout[OF c, of 0 "''altinit''"] by (simp add: SPACE_def)
  have v2: "exec_vector 0 (Mach_GetBootArgs [''root=/dev/sda1'', ''quiet''] (replicate 79 (CHR ''#'')))
        (INIT \<lparr>main_AltInit = Some ''altinit'', INIT = ''initpath''\<rparr>)
       = Inr (Some [Some ''initpath'', Some ''-b'', Some ''root=/dev/sda1 quiet '', Some ''quiet''])"
    using exec_vector_layout[OF c, of 0 "''initpath''"] by (simp add: SPACE_def)
  have r1: "exec_returns (always 5) ''altinit''
        (Some [Some ''altinit'', Some ''-b'', Some ''root=/dev/sda1 quiet '', Some ''quiet'']) = Some 5"
    by (simp add: always_def)
  have r2: "exec_returns (always 5) (INIT \<lparr>main_AltInit = Some ''altinit'', INIT = ''initpath''\<rparr>)
        (Some [Some ''initpath'', Some ''-b'', Some ''root=/dev/sda1 quiet '', Some ''quiet'']) = Some 5"
    by (simp add: always_def)
  have "Init_ending 0 (always 5) \<lparr>main_AltInit = Some ''altinit'', INIT = ''initpath''\<rparr>
        (Mach_GetBootArgs [''root=/dev/sda1'', ''quiet''] (replicate 79 (CHR ''#'')))
       = Inr (Exited 1)"
    using C7_init_exhaustion[OF a v1 r1 v2 r2] by (rule conjunct1)
  then show ?thesis using a v1 v2 r1 r2 by simp
qed

text \<open>
  Claim C8: when the exec of the alternate init comes back, the next calls are the
  failure message and the open check of the canonical init, and the canonical exec
  follows; whatever \<^verbatim>\<open>Fs_Open\<close> returns, the canonical exec is attempted right after
  it (after the message when the status is not \<^verbatim>\<open>SUCCESS\<close>), and how \<^verbatim>\<open>Init\<close> ends
  depends on that exec alone.
\<close>

theorem C8_fall_through:
  assumes "exec_vector base ba (INIT cfg) = Inr v2"
  shows "(main_AltInit cfg = Some alt \<and> exec_vector base ba alt = Inr v1
            \<and> exec_returns env alt v1 = Some s1
          \<longrightarrow> (\<exists>t. Init_calls base env cfg ba = Inr t
                 \<and> take 2 (calls_after (Proc_KernExec alt v1) t)
                     = [printf ''Init: Could not exec %s status %x.\<newline>'' [S alt, X s1],
                        Fs_Open (INIT cfg) [FS_EXECUTE, FS_FOLLOW]]
                 \<and> Proc_KernExec (INIT cfg) v2
                     \<in> set (calls_after (Fs_Open (INIT cfg) [FS_EXECUTE, FS_FOLLOW]) t)))
         \<and> (main_AltInit cfg = None
              \<or> (main_AltInit cfg = Some alt \<and> exec_vector base ba alt = Inr v1
                  \<and> exec_returns env alt v1 = Some s1)
          \<longrightarrow> (\<exists>t st. Init_calls base env cfg ba = Inr t
                 \<and> st = returns env (calls_before (Fs_Open (INIT cfg) [FS_EXECUTE, FS_FOLLOW]) t)
                            (Fs_Open (INIT cfg) [FS_EXECUTE, FS_FOLLOW])
                 \<and> (st \<noteq> SUCCESS \<longrightarrow>
                      take 2 (calls_after (Fs_Open (INIT cfg) [FS_EXECUTE, FS_FOLLOW]) t)
                        = [printf ''Can't open %s <0x%x>\<newline>'' [S (INIT cfg), X st],
                           Proc_KernExec (INIT cfg) v2])
                 \<and> (st = SUCCESS \<longrightarrow>
                      take 1 (calls_after (Fs_Open (INIT cfg) [FS_EXECUTE, FS_FOLLOW]) t)
                        = [Proc_KernExec (INIT cfg) v2]))
              \<and> Init_ending base env cfg ba
                  = Inr (case exec_returns env (INIT cfg) v2 of
                           None \<Rightarrow> Replaced (INIT cfg) | Some st \<Rightarrow> Exited 1))"
proof (intro conjI impI)
  assume a: "main_AltInit cfg = Some alt \<and> exec_vector base ba alt = Inr v1
            \<and> exec_returns env alt v1 = Some s1"
  show "\<exists>t. Init_calls base env cfg ba = Inr t
                 \<and> take 2 (calls_after (Proc_KernExec alt v1) t)
                     = [printf ''Init: Could not exec %s status %x.\<newline>'' [S alt, X s1],
                        Fs_Open (INIT cfg) [FS_EXECUTE, FS_FOLLOW]]
                 \<and> Proc_KernExec (INIT cfg) v2
                     \<in> set (calls_after (Fs_Open (INIT cfg) [FS_EXECUTE, FS_FOLLOW]) t)"
    unfolding Init_calls_alt_fails[OF a[THEN conjunct1] a[THEN conjunct2, THEN conjunct1]
        a[THEN conjunct2, THEN conjunct2] assms]
    by (simp add: calls_after_def)
next
  assume b: "main_AltInit cfg = None
              \<or> (main_AltInit cfg = Some alt \<and> exec_vector base ba alt = Inr v1
                  \<and> exec_returns env alt v1 = Some s1)"
  show "Init_ending base env cfg ba
                  = Inr (case exec_returns env (INIT cfg) v2 of
                           None \<Rightarrow> Replaced (INIT cfg) | Some st \<Rightarrow> Exited 1)"
    using Init_ending_eq[OF b assms] .
  from b show "\<exists>t st. Init_calls base env cfg ba = Inr t
                 \<and> st = returns env (calls_before (Fs_Open (INIT cfg) [FS_EXECUTE, FS_FOLLOW]) t)
                            (Fs_Open (INIT cfg) [FS_EXECUTE, FS_FOLLOW])
                 \<and> (st \<noteq> SUCCESS \<longrightarrow>
                      take 2 (calls_after (Fs_Open (INIT cfg) [FS_EXECUTE, FS_FOLLOW]) t)
                        = [printf ''Can't open %s <0x%x>\<newline>'' [S (INIT cfg), X st],
                           Proc_KernExec (INIT cfg) v2])
                 \<and> (st = SUCCESS \<longrightarrow>
                      take 1 (calls_after (Fs_Open (INIT cfg) [FS_EXECUTE, FS_FOLLOW]) t)
                        = [Proc_KernExec (INIT cfg) v2])"
  proof
    assume n: "main_AltInit cfg = None"
    show ?thesis
      unfolding Init_calls_no_alt[OF n assms]
      by (simp add: calls_after_def calls_before_def)
  next
    assume a: "main_AltInit cfg = Some alt \<and> exec_vector base ba alt = Inr v1
                  \<and> exec_returns env alt v1 = Some s1"
    show ?thesis
      unfolding Init_calls_alt_fails[OF a[THEN conjunct1] a[THEN conjunct2, THEN conjunct1]
        a[THEN conjunct2, THEN conjunct2] assms]
      by (simp add: calls_after_def calls_before_def)
  qed
qed

theorem C8_fall_through_witness:
  "exec_vector 0 (Mach_GetBootArgs [''root=/dev/sda1'', ''quiet''] (replicate 79 (CHR ''#'')))
        ''initpath''
       = Inr (Some [Some ''initpath'', Some ''-b'', Some ''root=/dev/sda1 quiet '', Some ''quiet''])
   \<and> main_AltInit \<lparr>main_AltInit = Some ''altinit'', INIT = ''initpath''\<rparr> = Some ''altinit''
   \<and> exec_vector 0 (Mach_GetBootArgs [''root=/dev/sda1'', ''quiet''] (replicate 79 (CHR ''#'')))
        ''altinit''
       = Inr (Some [Some ''altinit'', Some ''-b'', Some ''root=/dev/sda1 quiet '', Some ''quiet''])
   \<and> exec_returns (always 5) ''altinit''
        (Some [Some ''altinit'', Some ''-b'', Some ''root=/dev/sda1 quiet '', Some ''quiet'']) = Some 5
   \<and> returns (always 5) [] (Fs_Open ''initpath'' [FS_EXECUTE, FS_FOLLOW]) \<noteq> SUCCESS
   \<and> (\<exists>t. Init_calls 0 (always 5) \<lparr>main_AltInit = Some ''altinit'', INIT = ''initpath''\<rparr>
              (Mach_GetBootArgs [''root=/dev/sda1'', ''quiet''] (replicate 79 (CHR ''#''))) = Inr t
          \<and> take 2 (calls_after (Fs_Open ''initpath'' [FS_EXECUTE, FS_FOLLOW]) t)
              = [printf ''Can't open %s <0x%x>\<newline>'' [S ''initpath'', X 5],
                 Proc_KernExec ''initpath''
                   (Some [Some ''initpath'', Some ''-b'', Some ''root=/dev/sda1 quiet '',
                          Some ''quiet''])])
   \<and> Init_ending 0 (always 5) \<lparr>main_AltInit = Some ''altinit'', INIT = ''initpath''\<rparr>
        (Mach_GetBootArgs [''root=/dev/sda1'', ''quiet''] (replicate 79 (CHR ''#'')))
       = Inr (Exited 1)"
proof -
  define cfg where "cfg = \<lparr>main_AltInit = Some ''altinit'', INIT = ''initpath''\<rparr>"
  define ba where "ba = Mach_GetBootArgs [''root=/dev/sda1'', ''quiet''] (replicate 79 (CHR ''#''))"
  define w1 where "w1 = Some [Some ''altinit'', Some ''-b'', Some ''root=/dev/sda1 quiet '', Some ''quiet'']"
  define w2 where "w2 = Some [Some ''initpath'', Some ''-b'', Some ''root=/dev/sda1 quiet '', Some ''quiet'']"
  have c: "boundary_contract (''root=/dev/sda1'' # [''quiet'']) (replicate 79 (CHR ''#''))"
    by (simp add: boundary_contract_def layout_def NUL_def)
  have i: "INIT cfg = ''initpath''" and a: "main_AltInit cfg = Some ''altinit''"
    by (simp_all add: cfg_def)
  have v1: "exec_vector 0 ba ''altinit'' = Inr w1"
    unfolding ba_def w1_def using exec_vector_layout[OF c, of 0 "''altinit''"] by (simp add: SPACE_def)
  have v2: "exec_vector 0 ba (INIT cfg) = Inr w2"
    unfolding ba_def w2_def i using exec_vector_layout[OF c, of 0 "''initpath''"] by (simp add: SPACE_def)
  have r1: "exec_returns (always 5) ''altinit'' w1 = Some 5"
    by (simp add: always_def)
  have st: "returns (always 5) t (Fs_Open ''initpath'' [FS_EXECUTE, FS_FOLLOW]) = 5" for t
    by (simp add: always_def)
  have ns: "(5 :: int) \<noteq> SUCCESS" by (simp add: SUCCESS_def)
  from C8_fall_through[OF v2, of "''altinit''" w1 "always 5" 5]
  have "(\<exists>t st. Init_calls 0 (always 5) cfg ba = Inr t
                 \<and> st = returns (always 5) (calls_before (Fs_Open (INIT cfg) [FS_EXECUTE, FS_FOLLOW]) t)
                            (Fs_Open (INIT cfg) [FS_EXECUTE, FS_FOLLOW])
                 \<and> (st \<noteq> SUCCESS \<longrightarrow>
                      take 2 (calls_after (Fs_Open (INIT cfg) [FS_EXECUTE, FS_FOLLOW]) t)
                        = [printf ''Can't open %s <0x%x>\<newline>'' [S (INIT cfg), X st],
                           Proc_KernExec (INIT cfg) w2])
                 \<and> (st = SUCCESS \<longrightarrow>
                      take 1 (calls_after (Fs_Open (INIT cfg) [FS_EXECUTE, FS_FOLLOW]) t)
                        = [Proc_KernExec (INIT cfg) w2]))
              \<and> Init_ending 0 (always 5) cfg ba
                  = Inr (case exec_returns (always 5) (INIT cfg) w2 of
                           None \<Rightarrow> Replaced (INIT cfg) | Some st \<Rightarrow> Exited 1)"
    using a v1 r1 by blast
  then have concl: "(\<exists>t. Init_calls 0 (always 5) cfg ba = Inr t
          \<and> take 2 (calls_after (Fs_Open ''initpath'' [FS_EXECUTE, FS_FOLLOW]) t)
              = [printf ''Can't open %s <0x%x>\<newline>'' [S ''initpath'', X 5],
                 Proc_KernExec ''initpath'' w2])
        \<and> Init_ending 0 (always 5) cfg ba = Inr (Exited 1)"
    using ns by (auto simp: i st always_def)
  show ?thesis
    using concl a v1 v2 r1 st[of "[]"] ns
    unfolding cfg_def[symmetric] ba_def[symmetric] w1_def[symmetric] w2_def[symmetric] i
    by simp
qed

end
